theory Spec2Isabelle
  imports Main "HOL-Library.Word"
begin

section \<open>The scanner of the translator (v1/translator/scanner.go)\<close>

subsection \<open>Runes and their classes\<close>

text \<open>
  The scanner reads runes from a buffered reader and classifies them with Go's
  package \<open>unicode\<close>.  The model covers the runes U+0000 .. U+00FF, one \<open>char\<close> each;
  for these, \<open>unicode.IsSpace\<close>, \<open>IsDigit\<close>, \<open>IsLetter\<close> and \<open>IsPunct\<close> are decided by
  the Latin-1 table of the package, written out below by code point.
\<close>

type_synonym rune = char

definition IsSpace :: "rune \<Rightarrow> bool" where
  "IsSpace r = (let n = (of_char r :: nat) in
     (9 \<le> n \<and> n \<le> 13) \<or> n = 32 \<or> n = 133 \<or> n = 160)"

definition IsDigit :: "rune \<Rightarrow> bool" where
  "IsDigit r = (let n = (of_char r :: nat) in 48 \<le> n \<and> n \<le> 57)"

definition IsLetter :: "rune \<Rightarrow> bool" where
  "IsLetter r = (let n = (of_char r :: nat) in
     (65 \<le> n \<and> n \<le> 90) \<or> (97 \<le> n \<and> n \<le> 122) \<or> n = 170 \<or> n = 181 \<or> n = 186 \<or>
     (192 \<le> n \<and> n \<le> 214) \<or> (216 \<le> n \<and> n \<le> 246) \<or> (248 \<le> n \<and> n \<le> 255))"

definition IsPunct :: "rune \<Rightarrow> bool" where
  "IsPunct r = (let n = (of_char r :: nat) in
     (33 \<le> n \<and> n \<le> 35) \<or> (37 \<le> n \<and> n \<le> 42) \<or> (44 \<le> n \<and> n \<le> 47) \<or>
     n = 58 \<or> n = 59 \<or> n = 63 \<or> n = 64 \<or> (91 \<le> n \<and> n \<le> 93) \<or> n = 95 \<or>
     n = 123 \<or> n = 125 \<or> n = 161 \<or> n = 167 \<or> n = 171 \<or> n = 182 \<or> n = 183 \<or>
     n = 187 \<or> n = 191)"

subsection \<open>Tokens, positions and the scanner state\<close>

text \<open>The token types of the source; \<open>INT\<close> is written \<open>INT_T\<close> (HOL reads \<open>INT\<close> as
  the intersection binder).\<close>

datatype TokenType =
  EOF | INVALID | KEYWORD | STRING | INT_T | PARENS_L | PARENS_R | SQUARE_L | SQUARE_R | COMMA

record Position =
  Line :: int
  Column :: int

record Token =
  Type :: TokenType
  Value :: string
  Position :: Position

text \<open>
  The scanner owns a position and a reader.  The reader is the list of runes not yet
  read: \<open>ReadRune\<close> takes the first one (\<open>None\<close> is \<open>io.EOF\<close>), and \<open>UnreadRune\<close>,
  which the scanner only calls directly after a successful \<open>ReadRune\<close>, puts the rune
  read last back in front.  \<open>Scan\<close> panics on a read error other than \<open>io.EOF\<close>; a
  reader over a list of runes has none, so the model has no such branch.  Lines and
  columns are Go \<open>int\<close>s; they are modelled as unbounded integers (a column only
  counts the runes read).
\<close>

record Scanner =
  position :: Position
  reader :: "rune list"

definition validKeywords :: "string list" where
  "validKeywords =
    [''Let'', ''When'', ''If'', ''Pay'', ''Assert'', ''Close'',
     ''Deposit'', ''Notify'', ''Choice'', ''ChoiceId'', ''Bound'',
     ''AvailableMoney'', ''Constant'', ''NegValue'', ''AddValue'', ''SubValue'', ''MulValue'',
     ''DivValue'', ''ChoiceValue'', ''TimeIntervalValue'', ''UseValue'', ''Cond'',
     ''AndObs'', ''OrObs'', ''NotObs'', ''ChoseSomething'', ''ValueGE'', ''ValueGT'',
     ''ValueLE'', ''ValueLT'', ''ValueEQ'', ''TrueObs'', ''FalseObs'']"

definition NewScanner :: "rune list \<Rightarrow> Scanner" where
  "NewScanner input = \<lparr>position = \<lparr>Line = 1, Column = 0\<rparr>, reader = input\<rparr>"

definition ReadRune :: "Scanner \<Rightarrow> (rune \<times> Scanner) option" where
  "ReadRune scan =
     (case reader scan of [] \<Rightarrow> None | r # rest \<Rightarrow> Some (r, scan\<lparr>reader := rest\<rparr>))"

definition incColumn :: "Scanner \<Rightarrow> Scanner" where
  "incColumn scan = scan\<lparr>position := (position scan)\<lparr>Column := Column (position scan) + 1\<rparr>\<rparr>"

definition backup :: "rune \<Rightarrow> Scanner \<Rightarrow> Scanner" where
  "backup r scan =
     scan\<lparr>reader := r # reader scan,
          position := (position scan)\<lparr>Column := Column (position scan) - 1\<rparr>\<rparr>"

definition resetPosition :: "Scanner \<Rightarrow> Scanner" where
  "resetPosition scan =
     scan\<lparr>position := \<lparr>Line = Line (position scan) + 1, Column = 0\<rparr>\<rparr>"

fun isValidKeywordIn :: "string list \<Rightarrow> string \<Rightarrow> bool" where
  "isValidKeywordIn [] word = False"
| "isValidKeywordIn (kw # kws) word = (if word = kw then True else isValidKeywordIn kws word)"

definition isValidKeyword :: "string \<Rightarrow> bool" where
  "isValidKeyword word = isValidKeywordIn validKeywords word"

subsection \<open>The loops of the scanner\<close>

text \<open>
  \<open>integer\<close> returns the digits read and an error (\<open>Some\<close> message) when a letter or a
  punctuation rune follows them.  Each loop carries its local variables as arguments.
\<close>

function integer_loop :: "string \<Rightarrow> Scanner \<Rightarrow> (string \<times> string option) \<times> Scanner" where
  "integer_loop number scan =
     (case ReadRune scan of
        None \<Rightarrow> ((number, None), scan)
      | Some (r, scan0) \<Rightarrow>
          (let scan1 = incColumn scan0 in
           if IsLetter r \<or> IsPunct r
           then ((number, Some ''invalid character in an integer''), backup r scan1)
           else if IsDigit r then integer_loop (number @ [r]) scan1
           else ((number, None), backup r scan1)))"
  by pat_completeness auto
termination
  by (relation "measure (\<lambda>(number, scan). length (reader scan))")
     (auto simp: ReadRune_def incColumn_def split: list.splits)

definition integer :: "Scanner \<Rightarrow> (string \<times> string option) \<times> Scanner" where
  "integer scan = integer_loop [] scan"

function str_loop :: "string \<Rightarrow> nat \<Rightarrow> Scanner \<Rightarrow> string \<times> Scanner" where
  "str_loop s quote scan =
     (case ReadRune scan of
        None \<Rightarrow> (s, scan)
      | Some (r, scan0) \<Rightarrow>
          (let scan1 = incColumn scan0;
               quote1 = (if r = CHR 0x22 then quote + 1 else quote) in
           if quote1 < 2 then str_loop (s @ [r]) quote1 scan1
           else (s, backup r scan1)))"
  by pat_completeness auto
termination
  by (relation "measure (\<lambda>(s, quote, scan). length (reader scan))")
     (auto simp: ReadRune_def incColumn_def split: list.splits)

definition str :: "Scanner \<Rightarrow> string \<times> Scanner" where
  "str scan = str_loop [] 0 scan"

function keyword_loop :: "string \<Rightarrow> Scanner \<Rightarrow> string \<times> Scanner" where
  "keyword_loop s scan =
     (case ReadRune scan of
        None \<Rightarrow> (s, scan)
      | Some (r, scan0) \<Rightarrow>
          (let scan1 = incColumn scan0 in
           if IsLetter r then keyword_loop (s @ [r]) scan1
           else (s, backup r scan1)))"
  by pat_completeness auto
termination
  by (relation "measure (\<lambda>(s, scan). length (reader scan))")
     (auto simp: ReadRune_def incColumn_def split: list.splits)

definition keyword :: "Scanner \<Rightarrow> string \<times> Scanner" where
  "keyword scan = keyword_loop [] scan"

text \<open>
  \<open>Scan\<close> returns the next token and the scanner after it.  A composite literal that
  leaves a field out (\<open>Token{Type: EOF}\<close>, \<open>Token{Type: INVALID, Value: kw}\<close>) has Go's
  zero value there: the empty string, the position (0, 0).
\<close>

function Scan :: "Scanner \<Rightarrow> Token \<times> Scanner" where
  "Scan scan =
     (case ReadRune scan of
        None \<Rightarrow> (\<lparr>Type = EOF, Value = [], Position = \<lparr>Line = 0, Column = 0\<rparr>\<rparr>, scan)
      | Some (r, scan0) \<Rightarrow>
          (let scan1 = incColumn scan0 in
           if r = CHR 0x0A then Scan (resetPosition scan1)
           else if r = CHR ''(''
             then (\<lparr>Type = PARENS_L, Value = ''('', Position = position scan1\<rparr>, scan1)
           else if r = CHR '')''
             then (\<lparr>Type = PARENS_R, Value = '')'', Position = position scan1\<rparr>, scan1)
           else if r = CHR ''[''
             then (\<lparr>Type = SQUARE_L, Value = ''['', Position = position scan1\<rparr>, scan1)
           else if r = CHR '']''
             then (\<lparr>Type = SQUARE_R, Value = '']'', Position = position scan1\<rparr>, scan1)
           else if r = CHR '',''
             then (\<lparr>Type = COMMA, Value = '','', Position = position scan1\<rparr>, scan1)
           else if r = CHR 0x22
             then (case str (backup r scan1) of (s, scan2) \<Rightarrow>
                     (\<lparr>Type = STRING, Value = s, Position = position scan2\<rparr>, scan2))
           else if IsSpace r then Scan scan1
           else if IsDigit r
             then (case integer (backup r scan1) of ((num, err), scan2) \<Rightarrow>
                     if err \<noteq> None
                     then (\<lparr>Type = INVALID, Value = num, Position = position scan2\<rparr>, scan2)
                     else (\<lparr>Type = INT_T, Value = num, Position = position scan2\<rparr>, scan2))
           else if IsLetter r
             then (case keyword (backup r scan1) of (kw, scan2) \<Rightarrow>
                     if isValidKeyword kw
                     then (\<lparr>Type = KEYWORD, Value = kw, Position = position scan2\<rparr>, scan2)
                     else (\<lparr>Type = INVALID, Value = kw, Position = \<lparr>Line = 0, Column = 0\<rparr>\<rparr>,
                           scan2))
           else (\<lparr>Type = INVALID, Value = [r], Position = position scan1\<rparr>, scan1)))"
  by pat_completeness auto
termination
  by (relation "measure (\<lambda>scan. length (reader scan))")
     (auto simp: ReadRune_def incColumn_def resetPosition_def split: list.splits)

declare integer_loop.simps [simp del]
declare str_loop.simps [simp del]
declare keyword_loop.simps [simp del]
declare Scan.simps [simp del]

subsection \<open>The loops, step by step and in closed form\<close>

text \<open>
  Each loop unfolded once on an empty and on a non-empty reader (the backup after the
  read restores the column and the rune), then what each loop computes as a whole.
\<close>

lemma integer_loop_Nil:
  "integer_loop n \<lparr>position = p, reader = []\<rparr> = ((n, None), \<lparr>position = p, reader = []\<rparr>)"
  by (simp add: integer_loop.simps ReadRune_def)

lemma integer_loop_Cons:
  "integer_loop n \<lparr>position = p, reader = r # rs\<rparr> =
     (if IsLetter r \<or> IsPunct r
      then ((n, Some ''invalid character in an integer''), \<lparr>position = p, reader = r # rs\<rparr>)
      else if IsDigit r
      then integer_loop (n @ [r]) \<lparr>position = p\<lparr>Column := Column p + 1\<rparr>, reader = rs\<rparr>
      else ((n, None), \<lparr>position = p, reader = r # rs\<rparr>))"
  by (subst integer_loop.simps) (simp add: ReadRune_def incColumn_def backup_def)

lemma str_loop_Nil:
  "str_loop s q \<lparr>position = p, reader = []\<rparr> = (s, \<lparr>position = p, reader = []\<rparr>)"
  by (simp add: str_loop.simps ReadRune_def)

lemma str_loop_Cons:
  "str_loop s q \<lparr>position = p, reader = r # rs\<rparr> =
     (if (if r = CHR 0x22 then q + 1 else q) < 2
      then str_loop (s @ [r]) (if r = CHR 0x22 then q + 1 else q)
             \<lparr>position = p\<lparr>Column := Column p + 1\<rparr>, reader = rs\<rparr>
      else (s, \<lparr>position = p, reader = r # rs\<rparr>))"
  by (subst str_loop.simps) (simp add: ReadRune_def incColumn_def backup_def Let_def)

lemma keyword_loop_Nil:
  "keyword_loop s \<lparr>position = p, reader = []\<rparr> = (s, \<lparr>position = p, reader = []\<rparr>)"
  by (simp add: keyword_loop.simps ReadRune_def)

lemma keyword_loop_Cons:
  "keyword_loop s \<lparr>position = p, reader = r # rs\<rparr> =
     (if IsLetter r
      then keyword_loop (s @ [r]) \<lparr>position = p\<lparr>Column := Column p + 1\<rparr>, reader = rs\<rparr>
      else (s, \<lparr>position = p, reader = r # rs\<rparr>))"
  by (subst keyword_loop.simps) (simp add: ReadRune_def incColumn_def backup_def)

lemma Scan_Nil:
  "Scan \<lparr>position = p, reader = []\<rparr> =
     (\<lparr>Type = EOF, Value = [], Position = \<lparr>Line = 0, Column = 0\<rparr>\<rparr>, \<lparr>position = p, reader = []\<rparr>)"
  by (simp add: Scan.simps ReadRune_def)

lemma Scan_Cons:
  "Scan \<lparr>position = p, reader = r # rs\<rparr> =
     (let p1 = p\<lparr>Column := Column p + 1\<rparr>; scan1 = \<lparr>position = p1, reader = rs\<rparr>;
          back = \<lparr>position = p, reader = r # rs\<rparr> in
      if r = CHR 0x0A then Scan \<lparr>position = \<lparr>Line = Line p + 1, Column = 0\<rparr>, reader = rs\<rparr>
      else if r = CHR ''('' then (\<lparr>Type = PARENS_L, Value = ''('', Position = p1\<rparr>, scan1)
      else if r = CHR '')'' then (\<lparr>Type = PARENS_R, Value = '')'', Position = p1\<rparr>, scan1)
      else if r = CHR ''['' then (\<lparr>Type = SQUARE_L, Value = ''['', Position = p1\<rparr>, scan1)
      else if r = CHR '']'' then (\<lparr>Type = SQUARE_R, Value = '']'', Position = p1\<rparr>, scan1)
      else if r = CHR '','' then (\<lparr>Type = COMMA, Value = '','', Position = p1\<rparr>, scan1)
      else if r = CHR 0x22
        then (case str back of (s, scan2) \<Rightarrow>
                (\<lparr>Type = STRING, Value = s, Position = position scan2\<rparr>, scan2))
      else if IsSpace r then Scan scan1
      else if IsDigit r
        then (case integer back of ((num, err), scan2) \<Rightarrow>
                if err \<noteq> None
                then (\<lparr>Type = INVALID, Value = num, Position = position scan2\<rparr>, scan2)
                else (\<lparr>Type = INT_T, Value = num, Position = position scan2\<rparr>, scan2))
      else if IsLetter r
        then (case keyword back of (kw, scan2) \<Rightarrow>
                if isValidKeyword kw
                then (\<lparr>Type = KEYWORD, Value = kw, Position = position scan2\<rparr>, scan2)
                else (\<lparr>Type = INVALID, Value = kw, Position = \<lparr>Line = 0, Column = 0\<rparr>\<rparr>, scan2))
      else (\<lparr>Type = INVALID, Value = [r], Position = p1\<rparr>, scan1))"
  by (subst Scan.simps) (simp add: ReadRune_def incColumn_def backup_def resetPosition_def Let_def)

lemma digit_not_letter: "IsDigit r \<Longrightarrow> \<not> IsLetter r"
  by (auto simp: IsDigit_def IsLetter_def Let_def)
lemma digit_not_punct: "IsDigit r \<Longrightarrow> \<not> IsPunct r"
  by (auto simp: IsDigit_def IsPunct_def Let_def)
lemma space_not_letter: "IsSpace r \<Longrightarrow> \<not> IsLetter r"
  by (auto simp: IsSpace_def IsLetter_def Let_def)
lemma space_not_punct: "IsSpace r \<Longrightarrow> \<not> IsPunct r"
  by (auto simp: IsSpace_def IsPunct_def Let_def)
lemma space_not_digit: "IsSpace r \<Longrightarrow> \<not> IsDigit r"
  by (auto simp: IsSpace_def IsDigit_def Let_def)

lemma keyword_loop_eq:
  "keyword_loop s \<lparr>position = p, reader = xs\<rparr> =
     (s @ takeWhile IsLetter xs,
      \<lparr>position = p\<lparr>Column := Column p + int (length (takeWhile IsLetter xs))\<rparr>,
       reader = dropWhile IsLetter xs\<rparr>)"
proof (induction xs arbitrary: s p)
  case Nil
  show ?case by (simp add: keyword_loop_Nil)
next
  case (Cons r rs)
  show ?case by (simp add: keyword_loop_Cons Cons.IH)
qed

lemma integer_loop_eq:
  "integer_loop n \<lparr>position = p, reader = xs\<rparr> =
     ((n @ takeWhile IsDigit xs,
       (case dropWhile IsDigit xs of
          [] \<Rightarrow> None
        | c # cs \<Rightarrow> if IsLetter c \<or> IsPunct c then Some ''invalid character in an integer''
                    else None)),
      \<lparr>position = p\<lparr>Column := Column p + int (length (takeWhile IsDigit xs))\<rparr>,
       reader = dropWhile IsDigit xs\<rparr>)"
proof (induction xs arbitrary: n p)
  case Nil
  show ?case by (simp add: integer_loop_Nil)
next
  case (Cons r rs)
  show ?case
    by (simp add: integer_loop_Cons Cons.IH digit_not_letter digit_not_punct)
qed

lemma str_loop_eq:
  "str_loop s (Suc 0) \<lparr>position = p, reader = xs\<rparr> =
     (s @ takeWhile (\<lambda>r. r \<noteq> CHR 0x22) xs,
      \<lparr>position = p\<lparr>Column := Column p + int (length (takeWhile (\<lambda>r. r \<noteq> CHR 0x22) xs))\<rparr>,
       reader = dropWhile (\<lambda>r. r \<noteq> CHR 0x22) xs\<rparr>)"
proof (induction xs arbitrary: s p)
  case Nil
  show ?case by (simp add: str_loop_Nil)
next
  case (Cons r rs)
  show ?case by (simp add: str_loop_Cons Cons.IH)
qed

lemma str_eq:
  "str \<lparr>position = p, reader = CHR 0x22 # xs\<rparr> =
     (CHR 0x22 # takeWhile (\<lambda>r. r \<noteq> CHR 0x22) xs,
      \<lparr>position = p\<lparr>Column := Column p + 1 + int (length (takeWhile (\<lambda>r. r \<noteq> CHR 0x22) xs))\<rparr>,
       reader = dropWhile (\<lambda>r. r \<noteq> CHR 0x22) xs\<rparr>)"
  by (simp add: str_def str_loop_Cons str_loop_eq)

lemma integer_eq:
  "integer \<lparr>position = p, reader = xs\<rparr> =
     ((takeWhile IsDigit xs,
       (case dropWhile IsDigit xs of
          [] \<Rightarrow> None
        | c # cs \<Rightarrow> if IsLetter c \<or> IsPunct c then Some ''invalid character in an integer''
                    else None)),
      \<lparr>position = p\<lparr>Column := Column p + int (length (takeWhile IsDigit xs))\<rparr>,
       reader = dropWhile IsDigit xs\<rparr>)"
  by (simp add: integer_def integer_loop_eq)

lemma keyword_eq:
  "keyword \<lparr>position = p, reader = xs\<rparr> =
     (takeWhile IsLetter xs,
      \<lparr>position = p\<lparr>Column := Column p + int (length (takeWhile IsLetter xs))\<rparr>,
       reader = dropWhile IsLetter xs\<rparr>)"
  by (simp add: keyword_def keyword_loop_eq)

lemma Scan_consumes_aux:
  "Scan \<lparr>position = p, reader = xs\<rparr> = (t, scan') \<Longrightarrow> Type t \<noteq> EOF \<Longrightarrow>
     length (reader scan') < length xs"
proof (induction xs arbitrary: p)
  case Nil
  then show ?case by (auto simp: Scan_Nil)
next
  case (Cons r rs)
  have d: "\<And>P. length (dropWhile P rs) < Suc (length rs)"
    by (simp add: less_Suc_eq_le length_dropWhile_le)
  from Cons.prems show ?case
    by (auto simp: Scan_Cons Let_def str_eq integer_eq keyword_eq d
             split: if_splits dest: Cons.IH)
qed

lemma Scan_consumes:
  "Scan scan = (t, scan') \<Longrightarrow> Type t \<noteq> EOF \<Longrightarrow> length (reader scan') < length (reader scan)"
  by (cases scan) (auto dest: Scan_consumes_aux)

subsection \<open>A scan pass\<close>

text \<open>
  The test helper \<open>testScanner\<close> calls \<open>Scan\<close> until it returns \<open>EOF\<close> and collects the
  tokens, the \<open>EOF\<close> token last.  Every call that returns another token has read at
  least one rune, so the pass ends.
\<close>

function scanAll :: "Scanner \<Rightarrow> Token list" where
  "scanAll scan =
     (case Scan scan of
        (token, scan') \<Rightarrow> if Type token = EOF then [token] else token # scanAll scan')"
  by pat_completeness auto
termination
  by (relation "measure (\<lambda>scan. length (reader scan))") (auto dest: Scan_consumes [OF sym])

declare scanAll.simps [simp del]

definition testScanner :: "string \<Rightarrow> Token list" where
  "testScanner s = scanAll (NewScanner s)"


subsection \<open>Positions\<close>

text \<open>
  The lexicographic order on positions; the position reached from \<open>p\<close> by reading
  runes when every rune counts as one column and every newline starts the next line at
  column 0; and the tokens that \<open>Scan\<close> returns with a position: all but \<open>EOF\<close> and the
  \<open>INVALID\<close> token of a word that is no keyword.
\<close>

definition pos_le :: "Position \<Rightarrow> Position \<Rightarrow> bool" where
  "pos_le a b = (Line a < Line b \<or> (Line a = Line b \<and> Column a \<le> Column b))"

definition step :: "Position \<Rightarrow> rune \<Rightarrow> Position" where
  "step p r = (if r = CHR 0x0A then \<lparr>Line = Line p + 1, Column = 0\<rparr>
               else p\<lparr>Column := Column p + 1\<rparr>)"

definition advance :: "Position \<Rightarrow> rune list \<Rightarrow> Position" where
  "advance p rs = foldl step p rs"

definition unknownWord :: "Token \<Rightarrow> bool" where
  "unknownWord t = (Type t = INVALID \<and> list_all IsLetter (Value t))"

definition carriesPosition :: "Token \<Rightarrow> bool" where
  "carriesPosition t = (Type t \<noteq> EOF \<and> \<not> unknownWord t)"

section \<open>The contract types and their JSON encoding (package language)\<close>

subsection \<open>Documents\<close>

text \<open>
  The types of the package are encoded with \<open>json.Marshal\<close>.  A document is the JSON
  value it writes: an object lists its members in the order written, which is the order
  of the struct's fields, each under the key of the field's \<open>json\<close> tag or, without a
  tag, under the field's name; a number carries its numeral as written.
\<close>

datatype json =
  JNull
| JBool bool
| JNumber string
| JString string
| JArray "json list"
| JObject "(string \<times> json) list"

subsection \<open>Numerals\<close>

text \<open>
  \<open>digits\<close> is the base-10 numeral of a natural number, as \<open>strconv\<close> writes an unsigned
  integer.  \<open>Integer_String\<close> is \<open>(*big.Int).String\<close>: the base-10 numeral, with a minus sign
  for a negative number.  \<open>SetString\<close> is \<open>(*big.Int).SetString(s, 10)\<close>: an optional
  sign and at least one decimal digit, nothing else; \<open>None\<close> is its failure.
  \<open>SetConstant\<close> ignores the failure and dereferences the result, which is nil then: it
  panics (\<open>None\<close>).
\<close>

definition digitChar :: "nat \<Rightarrow> char" where
  "digitChar d = ''0123456789'' ! d"

function digits :: "nat \<Rightarrow> string" where
  "digits n = (if n < 10 then [digitChar n] else digits (n div 10) @ [digitChar (n mod 10)])"
  by pat_completeness auto
termination
  by (relation "measure (\<lambda>n. n)") auto

declare digits.simps [simp del]

definition Integer_String :: "int \<Rightarrow> string" where
  "Integer_String x = (if x < 0 then CHR ''-'' # digits (nat (- x)) else digits (nat x))"

definition decimalDigit :: "char \<Rightarrow> bool" where
  "decimalDigit c = (48 \<le> (of_char c :: nat) \<and> (of_char c :: nat) \<le> 57)"

fun digitsValue :: "nat \<Rightarrow> string \<Rightarrow> nat option" where
  "digitsValue acc [] = Some acc"
| "digitsValue acc (c # cs) =
     (if decimalDigit c then digitsValue (acc * 10 + (of_char c - 48)) cs else None)"

definition SetString :: "string \<Rightarrow> int option" where
  "SetString s =
     (case s of
        [] \<Rightarrow> None
      | c # cs \<Rightarrow>
          if c = CHR ''-''
            then (if cs = [] then None else map_option (\<lambda>n. - int n) (digitsValue 0 cs))
          else if c = CHR ''+''
            then (if cs = [] then None else map_option int (digitsValue 0 cs))
          else map_option int (digitsValue 0 s))"

subsection \<open>The types\<close>

text \<open>
  A struct is a constructor with the fields in their order; an interface is the
  datatype of the types that implement it.  \<open>Role\<close> has the field \<open>Name\<close>, \<open>Token\<close> the
  fields \<open>Symbol\<close> and \<open>Name\<close> (it is written \<open>Token_core\<close> here, \<open>Token\<close> being the
  scanner's token), \<open>Payee\<close> the field \<open>Party\<close>, \<open>ChoiceId\<close> the fields \<open>Name\<close> and \<open>Owner\<close>,
  \<open>Bound\<close> the \<open>uint64\<close> fields \<open>Upper\<close> and \<open>Lower\<close>.  An \<open>Integer\<close> is a \<open>big.Int\<close>, an
  unbounded integer; a \<open>Timeout\<close> is a Go \<open>int\<close>, 64 bits wide.
\<close>

datatype Party = Address string | Role string

datatype Token_core = Token_core string string

definition Ada :: Token_core where
  "Ada = Token_core [] []"

datatype Payee = Payee Party

type_synonym AccountId = Party

type_synonym ValueId = string

type_synonym Timeout = "64 word"

datatype ChoiceId = ChoiceId string Party

datatype Bound = Bound "64 word" "64 word"

text \<open>
  The interface \<open>Observation\<close> embeds the interface \<open>Value\<close>: every observation is also a
  value (\<open>ObservationValue\<close>).  \<open>TimeIntervalValue\<close> is a string type with the constants
  \<open>TimeIntervalStart\<close> and \<open>TimeIntervalEnd\<close>, \<open>BoolObs\<close> a boolean type with the constants
  \<open>TrueObs\<close> and \<open>FalseObs\<close>.  The field \<open>Observation\<close> of \<open>Cond\<close> is a \<open>bool\<close>.
\<close>

datatype Value =
    AvailableMoney Token_core AccountId
  | ChoiceValue ChoiceId
  | UseValue ValueId
  | TimeIntervalValue string
  | Constant int
  | NegValue Value
  | AddValue Value Value
  | MulValue Value Value
  | SubValue Value Value
  | DivValue Value Value
  | Cond bool Value Value
  | ObservationValue Observation
and Observation =
    AndObs Observation Observation
  | OrObs Observation Observation
  | NotObs Observation
  | ChoseSomething ChoiceId
  | ValueGE Value Value
  | ValueGT Value Value
  | ValueLT Value Value
  | ValueLE Value Value
  | ValueEQ Value Value
  | BoolObs bool

definition TimeIntervalStart :: Value where
  "TimeIntervalStart = TimeIntervalValue ''time_interval_start''"

definition TimeIntervalEnd :: Value where
  "TimeIntervalEnd = TimeIntervalValue ''time_interval_end''"

definition TrueObs :: Observation where
  "TrueObs = BoolObs True"

definition FalseObs :: Observation where
  "FalseObs = BoolObs False"

definition SetConstant :: "string \<Rightarrow> Value option" where
  "SetConstant s = map_option Constant (SetString s)"

datatype Action =
    Deposit AccountId Party Token_core Value
  | Choice ChoiceId "Bound list"
  | Notify Observation

text \<open>
  \<open>CloseContract\<close> is a string type with the constant \<open>Close\<close>.  The contracts \<open>If\<close> and
  \<open>Let\<close> are written \<open>IfContract\<close> and \<open>LetContract\<close> (\<open>If\<close> and \<open>Let\<close> are constants of
  HOL).  A \<open>Case\<close> has the fields \<open>Case\<close>, of the interface \<open>CaseStmt\<close> that cases and
  contracts implement and nil (\<open>None\<close>) when the literal leaves it out, \<open>Action\<close> and
  \<open>Contract\<close>.  A list is a slice that is not nil.
\<close>

datatype Contract =
    CloseContract string
  | Pay AccountId Payee Token_core Value Contract
  | IfContract Observation Contract Contract
  | When "Case list" Timeout Contract
  | LetContract ValueId Value Contract
  | Assert Observation Contract
and Case = Case "CaseStmt option" Action Contract
and CaseStmt = CaseStmt_Case Case | CaseStmt_Contract Contract

definition Close :: Contract where
  "Close = CloseContract ''close''"

subsection \<open>Encoding\<close>

text \<open>
  What \<open>json.Marshal\<close> writes for each type.  The structs \<open>Payee\<close>, \<open>Cond\<close>, \<open>Deposit\<close>,
  \<open>Notify\<close>, \<open>When\<close> and \<open>Case\<close> declare no \<open>json\<close> tags, so their members are written
  under the names of their fields.  \<open>Constant\<close> has a \<open>MarshalJSON\<close> of its own, which
  returns the text of \<open>String()\<close>.
\<close>

fun encode_Party :: "Party \<Rightarrow> json" where
  "encode_Party (Address a) = JString a"
| "encode_Party (Role name) = JObject [(''role_token'', JString name)]"

fun encode_Token :: "Token_core \<Rightarrow> json" where
  "encode_Token (Token_core symbol name) =
     JObject [(''currency_symbol'', JString symbol), (''token_name'', JString name)]"

fun encode_Payee :: "Payee \<Rightarrow> json" where
  "encode_Payee (Payee party) = JObject [(''Party'', encode_Party party)]"

fun encode_ChoiceId :: "ChoiceId \<Rightarrow> json" where
  "encode_ChoiceId (ChoiceId name owner) =
     JObject [(''choice_name'', JString name), (''choice_owner'', encode_Party owner)]"

fun encode_Bound :: "Bound \<Rightarrow> json" where
  "encode_Bound (Bound upper lower) =
     JObject [(''from'', JNumber (digits (unat upper))), (''to'', JNumber (digits (unat lower)))]"

fun encode_Value :: "Value \<Rightarrow> json"
and encode_Observation :: "Observation \<Rightarrow> json" where
  "encode_Value (AvailableMoney amount account) =
     JObject [(''amount_of_token'', encode_Token amount), (''in_account'', encode_Party account)]"
| "encode_Value (ChoiceValue v) = JObject [(''value_of_choice'', encode_ChoiceId v)]"
| "encode_Value (UseValue v) = JObject [(''use_value'', JString v)]"
| "encode_Value (TimeIntervalValue s) = JString s"
| "encode_Value (Constant i) = JNumber (Integer_String i)"
| "encode_Value (NegValue neg) = JObject [(''negate'', encode_Value neg)]"
| "encode_Value (AddValue add to) =
     JObject [(''add'', encode_Value add), (''and'', encode_Value to)]"
| "encode_Value (MulValue multiply by) =
     JObject [(''multiply'', encode_Value multiply), (''times'', encode_Value by)]"
| "encode_Value (SubValue subtract from) =
     JObject [(''minus'', encode_Value subtract), (''value'', encode_Value from)]"
| "encode_Value (DivValue dividend by) =
     JObject [(''divide'', encode_Value dividend), (''by'', encode_Value by)]"
| "encode_Value (Cond observation ifTrue ifFalse) =
     JObject [(''Observation'', JBool observation), (''IfTrue'', encode_Value ifTrue),
              (''IfFalse'', encode_Value ifFalse)]"
| "encode_Value (ObservationValue obs) = encode_Observation obs"
| "encode_Observation (AndObs both and') =
     JObject [(''both'', encode_Observation both), (''and'', encode_Observation and')]"
| "encode_Observation (OrObs either or') =
     JObject [(''either'', encode_Observation either), (''or'', encode_Observation or')]"
| "encode_Observation (NotObs not') = JObject [(''not'', encode_Observation not')]"
| "encode_Observation (ChoseSomething choice) =
     JObject [(''chose_something_for'', encode_ChoiceId choice)]"
| "encode_Observation (ValueGE v ge) =
     JObject [(''value'', encode_Value v), (''ge_than'', encode_Value ge)]"
| "encode_Observation (ValueGT v gt) =
     JObject [(''value'', encode_Value v), (''gt'', encode_Value gt)]"
| "encode_Observation (ValueLT v lt) =
     JObject [(''value'', encode_Value v), (''lt'', encode_Value lt)]"
| "encode_Observation (ValueLE v le) =
     JObject [(''value'', encode_Value v), (''le_than'', encode_Value le)]"
| "encode_Observation (ValueEQ v eq) =
     JObject [(''value'', encode_Value v), (''equal_to'', encode_Value eq)]"
| "encode_Observation (BoolObs b) = JBool b"

fun encode_Action :: "Action \<Rightarrow> json" where
  "encode_Action (Deposit accountId party token v) =
     JObject [(''AccountId'', encode_Party accountId), (''Party'', encode_Party party),
              (''Token'', encode_Token token), (''Value'', encode_Value v)]"
| "encode_Action (Choice choiceId bounds) =
     JObject [(''for_choice'', encode_ChoiceId choiceId),
              (''choose_between'', JArray (map encode_Bound bounds))]"
| "encode_Action (Notify observation) = JObject [(''Observation'', encode_Observation observation)]"

fun encode_Contract :: "Contract \<Rightarrow> json"
and encode_Case :: "Case \<Rightarrow> json"
and encode_CaseStmt :: "CaseStmt \<Rightarrow> json" where
  "encode_Contract (CloseContract s) = JString s"
| "encode_Contract (Pay accountId payee token pay continue) =
     JObject [(''from_account'', encode_Party accountId), (''to'', encode_Payee payee),
              (''token'', encode_Token token), (''pay'', encode_Value pay),
              (''then'', encode_Contract continue)]"
| "encode_Contract (IfContract observation then' else') =
     JObject [(''if'', encode_Observation observation), (''then'', encode_Contract then'),
              (''else'', encode_Contract else')]"
| "encode_Contract (When cases timeout continue) =
     JObject [(''Cases'', JArray (map encode_Case cases)),
              (''Timeout'', JNumber (Integer_String (sint timeout))),
              (''Continue'', encode_Contract continue)]"
| "encode_Contract (LetContract name v continue) =
     JObject [(''let'', JString name), (''be'', encode_Value v),
              (''then'', encode_Contract continue)]"
| "encode_Contract (Assert observation continue) =
     JObject [(''assert'', encode_Observation observation), (''then'', encode_Contract continue)]"
| "encode_Case (Case stmt action contract) =
     JObject [(''Case'', (case stmt of None \<Rightarrow> JNull | Some s \<Rightarrow> encode_CaseStmt s)),
              (''Action'', encode_Action action), (''Contract'', encode_Contract contract)]"
| "encode_CaseStmt (CaseStmt_Case c) = encode_Case c"
| "encode_CaseStmt (CaseStmt_Contract c) = encode_Contract c"

subsection \<open>Decoding\<close>

text \<open>
  Modelled from the spec: the decoder.  The package only encodes (its tests call
  \<open>json.Marshal\<close>); it has no function that reads a document back.  The definitions of
  this subsection follow section 4.3 of the specification: decoding is the structural
  inverse of the canonical tag table, it selects the variant by the literal keys of the
  document, in the order of the table's fields, and rejects a document whose keys match
  no variant; it may fail by an unknown tag, a wrong arity or a malformed integer
  literal.  Where the table has no row (\<open>Address\<close>, the payee of \<open>Pay\<close>, the timeout) the
  decoder inverts what the encoder writes; \<open>Cond\<close> and an observation in the place of a
  value have no row and are not decoded.  An integer literal is read by \<open>SetString\<close>.
\<close>

datatype DecodeError = UnknownTag | WrongArity | MalformedInteger

text \<open>Modelled from the spec: the decoder's plumbing, the first error of the fields wins.\<close>

definition mapE :: "('a \<Rightarrow> 'b) \<Rightarrow> DecodeError + 'a \<Rightarrow> DecodeError + 'b" where
  "mapE f r = (case r of Inl e \<Rightarrow> Inl e | Inr x \<Rightarrow> Inr (f x))"

text \<open>Modelled from the spec: the decoder's plumbing, a constructor applied field by field.\<close>

definition apE :: "DecodeError + ('a \<Rightarrow> 'b) \<Rightarrow> DecodeError + 'a \<Rightarrow> DecodeError + 'b" where
  "apE rf r = (case rf of Inl e \<Rightarrow> Inl e | Inr f \<Rightarrow> mapE f r)"

text \<open>Modelled from the spec: the decoder's plumbing, the elements of an array in order.\<close>

fun sequenceE :: "(DecodeError + 'a) list \<Rightarrow> DecodeError + 'a list" where
  "sequenceE [] = Inr []"
| "sequenceE (r # rs) = apE (mapE (#) r) (sequenceE rs)"

text \<open>
  Modelled from the spec: the error of a document that matches no row.  It is a wrong
  arity when the first key is the first key of a row, an unknown tag otherwise.
\<close>

definition shapeError :: "string list \<Rightarrow> json \<Rightarrow> DecodeError" where
  "shapeError tags d =
     (case d of
        JObject ((k, v) # members) \<Rightarrow> if k \<in> set tags then WrongArity else UnknownTag
      | _ \<Rightarrow> UnknownTag)"

text \<open>Modelled from the spec: decoding a name, a bare string.\<close>

definition decode_string :: "json \<Rightarrow> DecodeError + string" where
  "decode_string d = (case d of JString s \<Rightarrow> Inr s | _ \<Rightarrow> Inl UnknownTag)"

text \<open>Modelled from the spec: decoding a bare number into an unbounded integer.\<close>

definition decode_integer :: "json \<Rightarrow> DecodeError + int" where
  "decode_integer d =
     (case d of
        JNumber s \<Rightarrow> (case SetString s of None \<Rightarrow> Inl MalformedInteger | Some x \<Rightarrow> Inr x)
      | _ \<Rightarrow> Inl UnknownTag)"

text \<open>Modelled from the spec: decoding a bound of a \<open>Bound\<close>, a \<open>uint64\<close>.\<close>

definition decode_uint64 :: "json \<Rightarrow> DecodeError + 64 word" where
  "decode_uint64 d =
     (case decode_integer d of
        Inl e \<Rightarrow> Inl e
      | Inr x \<Rightarrow> if 0 \<le> x \<and> x < 2 ^ 64 then Inr (word_of_int x) else Inl MalformedInteger)"

text \<open>Modelled from the spec: decoding a timeout, an \<open>int\<close>.\<close>

definition decode_int64 :: "json \<Rightarrow> DecodeError + 64 word" where
  "decode_int64 d =
     (case decode_integer d of
        Inl e \<Rightarrow> Inl e
      | Inr x \<Rightarrow> if - (2 ^ 63) \<le> x \<and> x < 2 ^ 63 then Inr (word_of_int x)
                 else Inl MalformedInteger)"

text \<open>Modelled from the spec: decoding a party, the row of \<open>Role\<close> and a bare string.\<close>

fun decode_Party :: "json \<Rightarrow> DecodeError + Party" where
  "decode_Party (JString a) = Inr (Address a)"
| "decode_Party (JObject [(k, name)]) =
     (if k = ''role_token'' then mapE Role (decode_string name) else Inl UnknownTag)"
| "decode_Party d = Inl (shapeError [''role_token''] d)"

text \<open>Modelled from the spec: decoding an asset, the row of \<open>Asset\<close>.\<close>

fun decode_Token :: "json \<Rightarrow> DecodeError + Token_core" where
  "decode_Token (JObject [(k1, symbol), (k2, name)]) =
     (if k1 = ''currency_symbol'' \<and> k2 = ''token_name''
      then apE (mapE Token_core (decode_string symbol)) (decode_string name)
      else Inl (shapeError [''currency_symbol''] (JObject [(k1, symbol), (k2, name)])))"
| "decode_Token d = Inl (shapeError [''currency_symbol''] d)"

text \<open>Modelled from the spec: decoding a payee, the party under the key \<open>Party\<close>.\<close>

fun decode_Payee :: "json \<Rightarrow> DecodeError + Payee" where
  "decode_Payee (JObject [(k, party)]) =
     (if k = ''Party'' then mapE Payee (decode_Party party) else Inl UnknownTag)"
| "decode_Payee d = Inl (shapeError [''Party''] d)"

text \<open>Modelled from the spec: decoding a choice identifier, the row of \<open>ChoiceId\<close>.\<close>

fun decode_ChoiceId :: "json \<Rightarrow> DecodeError + ChoiceId" where
  "decode_ChoiceId (JObject [(k1, name), (k2, owner)]) =
     (if k1 = ''choice_name'' \<and> k2 = ''choice_owner''
      then apE (mapE ChoiceId (decode_string name)) (decode_Party owner)
      else Inl (shapeError [''choice_name''] (JObject [(k1, name), (k2, owner)])))"
| "decode_ChoiceId d = Inl (shapeError [''choice_name''] d)"

text \<open>Modelled from the spec: decoding a bound, the row of \<open>Bound\<close>.\<close>

fun decode_Bound :: "json \<Rightarrow> DecodeError + Bound" where
  "decode_Bound (JObject [(k1, upper), (k2, lower)]) =
     (if k1 = ''from'' \<and> k2 = ''to''
      then apE (mapE Bound (decode_uint64 upper)) (decode_uint64 lower)
      else Inl (shapeError [''from''] (JObject [(k1, upper), (k2, lower)])))"
| "decode_Bound d = Inl (shapeError [''from''] d)"

text \<open>Modelled from the spec: the first keys of the rows of the values.\<close>

definition valueTags :: "string list" where
  "valueTags = [''amount_of_token'', ''negate'', ''add'', ''minus'', ''multiply'', ''divide'',
                ''value_of_choice'', ''use_value'']"

text \<open>Modelled from the spec: the first keys of the rows of the observations.\<close>

definition observationTags :: "string list" where
  "observationTags = [''both'', ''either'', ''not'', ''chose_something_for'', ''value'']"

text \<open>
  Modelled from the spec: decoding a value and an observation, the rows of the table.  The
  comparisons share their first key and are told apart by the second.
\<close>

fun decode_Value :: "json \<Rightarrow> DecodeError + Value"
and decode_Observation :: "json \<Rightarrow> DecodeError + Observation" where
  "decode_Value (JNumber n) = mapE Constant (decode_integer (JNumber n))"
| "decode_Value (JString s) =
     (if s = ''time_interval_start'' \<or> s = ''time_interval_end''
      then Inr (TimeIntervalValue s) else Inl UnknownTag)"
| "decode_Value (JObject [(k, a)]) =
     (if k = ''negate'' then mapE NegValue (decode_Value a)
      else if k = ''value_of_choice'' then mapE ChoiceValue (decode_ChoiceId a)
      else if k = ''use_value'' then mapE UseValue (decode_string a)
      else Inl (shapeError valueTags (JObject [(k, a)])))"
| "decode_Value (JObject [(k1, a), (k2, b)]) =
     (if k1 = ''amount_of_token'' \<and> k2 = ''in_account''
        then apE (mapE AvailableMoney (decode_Token a)) (decode_Party b)
      else if k1 = ''add'' \<and> k2 = ''and''
        then apE (mapE AddValue (decode_Value a)) (decode_Value b)
      else if k1 = ''minus'' \<and> k2 = ''value''
        then apE (mapE SubValue (decode_Value a)) (decode_Value b)
      else if k1 = ''multiply'' \<and> k2 = ''times''
        then apE (mapE MulValue (decode_Value a)) (decode_Value b)
      else if k1 = ''divide'' \<and> k2 = ''by''
        then apE (mapE DivValue (decode_Value a)) (decode_Value b)
      else Inl (shapeError valueTags (JObject [(k1, a), (k2, b)])))"
| "decode_Value d = Inl (shapeError valueTags d)"
| "decode_Observation (JBool b) = Inr (BoolObs b)"
| "decode_Observation (JObject [(k, a)]) =
     (if k = ''not'' then mapE NotObs (decode_Observation a)
      else if k = ''chose_something_for'' then mapE ChoseSomething (decode_ChoiceId a)
      else Inl (shapeError observationTags (JObject [(k, a)])))"
| "decode_Observation (JObject [(k1, a), (k2, b)]) =
     (if k1 = ''both'' \<and> k2 = ''and''
        then apE (mapE AndObs (decode_Observation a)) (decode_Observation b)
      else if k1 = ''either'' \<and> k2 = ''or''
        then apE (mapE OrObs (decode_Observation a)) (decode_Observation b)
      else if k1 = ''value'' \<and> k2 = ''ge_than''
        then apE (mapE ValueGE (decode_Value a)) (decode_Value b)
      else if k1 = ''value'' \<and> k2 = ''gt''
        then apE (mapE ValueGT (decode_Value a)) (decode_Value b)
      else if k1 = ''value'' \<and> k2 = ''lt''
        then apE (mapE ValueLT (decode_Value a)) (decode_Value b)
      else if k1 = ''value'' \<and> k2 = ''le_than''
        then apE (mapE ValueLE (decode_Value a)) (decode_Value b)
      else if k1 = ''value'' \<and> k2 = ''equal_to''
        then apE (mapE ValueEQ (decode_Value a)) (decode_Value b)
      else Inl (shapeError observationTags (JObject [(k1, a), (k2, b)])))"
| "decode_Observation d = Inl (shapeError observationTags d)"

text \<open>Modelled from the spec: the first keys of the rows of the actions.\<close>

definition actionTags :: "string list" where
  "actionTags = [''into_account'', ''for_choice'', ''notify_if'']"

text \<open>Modelled from the spec: the first keys of the rows of the contracts.\<close>

definition contractTags :: "string list" where
  "contractTags = [''let'', ''if'', ''assert'', ''from_account'', ''when'']"

text \<open>Modelled from the spec: decoding an action, the rows of \<open>Deposit\<close>, \<open>Choice\<close>, \<open>Notify\<close>.\<close>

fun decode_Action :: "json \<Rightarrow> DecodeError + Action" where
  "decode_Action (JObject [(k, a)]) =
     (if k = ''notify_if'' then mapE Notify (decode_Observation a)
      else Inl (shapeError actionTags (JObject [(k, a)])))"
| "decode_Action (JObject [(k1, a), (k2, b)]) =
     (if k1 = ''for_choice'' \<and> k2 = ''choose_between''
      then (case b of
              JArray bounds \<Rightarrow>
                apE (mapE Choice (decode_ChoiceId a)) (sequenceE (map decode_Bound bounds))
            | _ \<Rightarrow> Inl UnknownTag)
      else Inl (shapeError actionTags (JObject [(k1, a), (k2, b)])))"
| "decode_Action (JObject [(k1, a), (k2, b), (k3, c), (k4, d)]) =
     (if k1 = ''into_account'' \<and> k2 = ''party'' \<and> k3 = ''of_token'' \<and> k4 = ''deposits''
      then apE (apE (apE (mapE Deposit (decode_Party a)) (decode_Party b)) (decode_Token c))
             (decode_Value d)
      else Inl (shapeError actionTags (JObject [(k1, a), (k2, b), (k3, c), (k4, d)])))"
| "decode_Action d = Inl (shapeError actionTags d)"

text \<open>
  Modelled from the spec: decoding a contract and a case, the rows of \<open>Close\<close>, \<open>Let\<close>,
  \<open>If\<close>, \<open>Assert\<close>, \<open>Pay\<close>, \<open>When\<close> and \<open>Case\<close>.  A decoded case has no \<open>Case\<close> field.
\<close>

fun decode_Contract :: "json \<Rightarrow> DecodeError + Contract"
and decode_Case :: "json \<Rightarrow> DecodeError + Case" where
  "decode_Contract (JString s) =
     (if s = ''close'' then Inr (CloseContract s) else Inl UnknownTag)"
| "decode_Contract (JObject [(k1, a), (k2, b)]) =
     (if k1 = ''assert'' \<and> k2 = ''then''
      then apE (mapE Assert (decode_Observation a)) (decode_Contract b)
      else Inl (shapeError contractTags (JObject [(k1, a), (k2, b)])))"
| "decode_Contract (JObject [(k1, a), (k2, b), (k3, c)]) =
     (if k1 = ''let'' \<and> k2 = ''be'' \<and> k3 = ''then''
        then apE (apE (mapE LetContract (decode_string a)) (decode_Value b)) (decode_Contract c)
      else if k1 = ''if'' \<and> k2 = ''then'' \<and> k3 = ''else''
        then apE (apE (mapE IfContract (decode_Observation a)) (decode_Contract b))
               (decode_Contract c)
      else if k1 = ''when'' \<and> k2 = ''timeout'' \<and> k3 = ''timeout_continuation''
        then (case a of
                JArray cases \<Rightarrow>
                  apE (apE (mapE When (sequenceE (map decode_Case cases))) (decode_int64 b))
                    (decode_Contract c)
              | _ \<Rightarrow> Inl UnknownTag)
      else Inl (shapeError contractTags (JObject [(k1, a), (k2, b), (k3, c)])))"
| "decode_Contract (JObject [(k1, a), (k2, b), (k3, c), (k4, d), (k5, e)]) =
     (if k1 = ''from_account'' \<and> k2 = ''to'' \<and> k3 = ''token'' \<and> k4 = ''pay'' \<and> k5 = ''then''
      then apE (apE (apE (apE (mapE Pay (decode_Party a)) (decode_Payee b)) (decode_Token c))
                  (decode_Value d)) (decode_Contract e)
      else Inl (shapeError contractTags (JObject [(k1, a), (k2, b), (k3, c), (k4, d), (k5, e)])))"
| "decode_Contract d = Inl (shapeError contractTags d)"
| "decode_Case (JObject [(k1, a), (k2, b)]) =
     (if k1 = ''case'' \<and> k2 = ''then''
      then apE (mapE (Case None) (decode_Action a)) (decode_Contract b)
      else Inl (shapeError [''case''] (JObject [(k1, a), (k2, b)])))"
| "decode_Case d = Inl (shapeError [''case''] d)"

subsection \<open>The contracts of tagged structs\<close>

text \<open>
  The structs \<open>Pay\<close>, \<open>If\<close>, \<open>Let\<close> and \<open>Assert\<close>, and the structs of the values and of
  the observations other than \<open>Cond\<close>, give every field its json tag; \<open>When\<close> and \<open>Cond\<close>
  give none.  The predicates below hold of the nodes built from the tagged structs
  alone, with the strings that the constants of the package hold: \<open>Close\<close> is the
  string \<open>close\<close>, and a \<open>TimeIntervalValue\<close> is \<open>TimeIntervalStart\<close> or
  \<open>TimeIntervalEnd\<close>.  An \<open>ObservationValue\<close> is left out: it is written as the
  observation it holds.
\<close>

fun tagged_Value :: "Value \<Rightarrow> bool"
and tagged_Observation :: "Observation \<Rightarrow> bool" where
  "tagged_Value (AvailableMoney amount account) = True"
| "tagged_Value (ChoiceValue v) = True"
| "tagged_Value (UseValue v) = True"
| "tagged_Value (TimeIntervalValue s) = (s = ''time_interval_start'' \<or> s = ''time_interval_end'')"
| "tagged_Value (Constant i) = True"
| "tagged_Value (NegValue neg) = tagged_Value neg"
| "tagged_Value (AddValue a b) = (tagged_Value a \<and> tagged_Value b)"
| "tagged_Value (MulValue a b) = (tagged_Value a \<and> tagged_Value b)"
| "tagged_Value (SubValue a b) = (tagged_Value a \<and> tagged_Value b)"
| "tagged_Value (DivValue a b) = (tagged_Value a \<and> tagged_Value b)"
| "tagged_Value (Cond observation ifTrue ifFalse) = False"
| "tagged_Value (ObservationValue obs) = False"
| "tagged_Observation (AndObs a b) = (tagged_Observation a \<and> tagged_Observation b)"
| "tagged_Observation (OrObs a b) = (tagged_Observation a \<and> tagged_Observation b)"
| "tagged_Observation (NotObs a) = tagged_Observation a"
| "tagged_Observation (ChoseSomething choice) = True"
| "tagged_Observation (ValueGE a b) = (tagged_Value a \<and> tagged_Value b)"
| "tagged_Observation (ValueGT a b) = (tagged_Value a \<and> tagged_Value b)"
| "tagged_Observation (ValueLT a b) = (tagged_Value a \<and> tagged_Value b)"
| "tagged_Observation (ValueLE a b) = (tagged_Value a \<and> tagged_Value b)"
| "tagged_Observation (ValueEQ a b) = (tagged_Value a \<and> tagged_Value b)"
| "tagged_Observation (BoolObs b) = True"

fun tagged_Contract :: "Contract \<Rightarrow> bool" where
  "tagged_Contract (CloseContract s) = (s = ''close'')"
| "tagged_Contract (Pay accountId payee token pay continue) =
     (tagged_Value pay \<and> tagged_Contract continue)"
| "tagged_Contract (IfContract observation then' else') =
     (tagged_Observation observation \<and> tagged_Contract then' \<and> tagged_Contract else')"
| "tagged_Contract (When cases timeout continue) = False"
| "tagged_Contract (LetContract name v continue) = (tagged_Value v \<and> tagged_Contract continue)"
| "tagged_Contract (Assert observation continue) =
     (tagged_Observation observation \<and> tagged_Contract continue)"

section \<open>Theorems about the scanner\<close>

subsection \<open>Evaluation\<close>

lemmas scan_eval =
  Scan_Nil Scan_Cons str_eq integer_eq keyword_eq NewScanner_def Let_def
  IsSpace_def IsDigit_def IsLetter_def IsPunct_def isValidKeyword_def validKeywords_def

lemmas pass_eval = testScanner_def scanAll.simps scan_eval

subsection \<open>String tokens\<close>

text \<open>
  Claim C3 (a string token runs up to and including its closing quote, which is consumed).
  The code stops in front of the closing quote: on the input \<open>"ab"\<close> the token's value is
  \<open>"ab\<close> without the closing quote, the quote stays in the reader, and the next call
  reads it as the opening quote of another string.  (\<open>str\<close> counts the quotes and, on the
  second one, backs up and returns; its call site says "Scan the string including
  quotes", and \<open>TestValidStrings\<close> expects the value with both quotes.)
\<close>

theorem Scan_string_stops_before_closing_quote:
  "Scan (NewScanner ''\"ab\"'') =
     (\<lparr>Type = STRING, Value = ''\"ab'', Position = \<lparr>Line = 1, Column = 3\<rparr>\<rparr>,
      \<lparr>position = \<lparr>Line = 1, Column = 3\<rparr>, reader = ''\"''\<rparr>) \<and>
   Scan \<lparr>position = \<lparr>Line = 1, Column = 3\<rparr>, reader = ''\"''\<rparr> =
     (\<lparr>Type = STRING, Value = ''\"'', Position = \<lparr>Line = 1, Column = 4\<rparr>\<rparr>,
      \<lparr>position = \<lparr>Line = 1, Column = 4\<rparr>, reader = []\<rparr>)"
  by (simp add: scan_eval)

text \<open>
  In general: the value of a string token is the opening quote and the runes up to the
  next quote, or up to the end of the input when no quote follows; the reader is left at
  that quote.
\<close>

theorem Scan_string_token:
  "Scan \<lparr>position = p, reader = CHR 0x22 # rs\<rparr> =
     (\<lparr>Type = STRING, Value = CHR 0x22 # takeWhile (\<lambda>r. r \<noteq> CHR 0x22) rs,
       Position = p\<lparr>Column := Column p + 1 + int (length (takeWhile (\<lambda>r. r \<noteq> CHR 0x22) rs))\<rparr>\<rparr>,
      \<lparr>position = p\<lparr>Column := Column p + 1 + int (length (takeWhile (\<lambda>r. r \<noteq> CHR 0x22) rs))\<rparr>,
       reader = dropWhile (\<lambda>r. r \<noteq> CHR 0x22) rs\<rparr>)"
  by (simp add: Scan_Cons Let_def str_eq)

subsection \<open>Invalid tokens\<close>

text \<open>
  Claim C4 (every \<open>INVALID\<close> token carries the captured text and its position).  For a
  word that is no keyword the code builds \<open>Token{Type: INVALID, Value: kw}\<close>: the token
  has the text, and the zero position (0, 0) instead of the scanner's position (1, 14).
  The other \<open>INVALID\<close> tokens and the \<open>KEYWORD\<close> token of the same branch are built with
  \<open>Position: scan.position\<close>.
\<close>

theorem Scan_unknown_word_without_position:
  "Scan (NewScanner ''InvalidKeyword'') =
     (\<lparr>Type = INVALID, Value = ''InvalidKeyword'', Position = \<lparr>Line = 0, Column = 0\<rparr>\<rparr>,
      \<lparr>position = \<lparr>Line = 1, Column = 14\<rparr>, reader = []\<rparr>)"
  by (simp add: scan_eval)

subsection \<open>Integer tokens\<close>

lemma takeWhile_all: "list_all P xs \<Longrightarrow> takeWhile P (xs @ ys) = xs @ takeWhile P ys"
  by (induction xs) auto

lemma dropWhile_all: "list_all P xs \<Longrightarrow> dropWhile P (xs @ ys) = dropWhile P ys"
  by (induction xs) auto

lemma digit_plain:
  "IsDigit r \<Longrightarrow> r \<noteq> CHR 0x0A \<and> r \<noteq> CHR ''('' \<and> r \<noteq> CHR '')'' \<and> r \<noteq> CHR ''['' \<and>
     r \<noteq> CHR '']'' \<and> r \<noteq> CHR '','' \<and> r \<noteq> CHR 0x22 \<and> \<not> IsSpace r"
  by (auto simp: IsDigit_def IsSpace_def Let_def)

lemma Scan_digits:
  assumes "IsDigit r"
  shows "Scan \<lparr>position = p, reader = r # rs\<rparr> =
     (\<lparr>Type = (case dropWhile IsDigit rs of
                  [] \<Rightarrow> INT_T
                | c # cs \<Rightarrow> if IsLetter c \<or> IsPunct c then INVALID else INT_T),
       Value = r # takeWhile IsDigit rs,
       Position = p\<lparr>Column := Column p + 1 + int (length (takeWhile IsDigit rs))\<rparr>\<rparr>,
      \<lparr>position = p\<lparr>Column := Column p + 1 + int (length (takeWhile IsDigit rs))\<rparr>,
       reader = dropWhile IsDigit rs\<rparr>)"
proof -
  define rest where "rest = dropWhile IsDigit rs"
  have "Scan \<lparr>position = p, reader = r # rs\<rparr> =
     (\<lparr>Type = (case rest of
                  [] \<Rightarrow> INT_T
                | c # cs \<Rightarrow> if IsLetter c \<or> IsPunct c then INVALID else INT_T),
       Value = r # takeWhile IsDigit rs,
       Position = p\<lparr>Column := Column p + 1 + int (length (takeWhile IsDigit rs))\<rparr>\<rparr>,
      \<lparr>position = p\<lparr>Column := Column p + 1 + int (length (takeWhile IsDigit rs))\<rparr>,
       reader = rest\<rparr>)"
    using assms digit_plain [OF assms]
    by (cases rest) (simp_all add: Scan_Cons Let_def integer_eq rest_def [symmetric])
  then show ?thesis by (simp add: rest_def)
qed

text \<open>
  Claim C6.  A run \<open>ds\<close> of digits at the end of the input, or followed by a space rune,
  is returned as one \<open>INT\<close> token whose value is \<open>ds\<close>; followed directly by a letter
  or a punctuation rune it is returned as one \<open>INVALID\<close> token whose value is \<open>ds\<close>.
  In both cases the rune after the digits is still in the reader, so the next call
  starts there.  A pass over the digits alone gives the \<open>INT\<close> token and \<open>EOF\<close>.
\<close>

theorem Scan_integer:
  assumes "ds \<noteq> []" and "list_all IsDigit ds"
  shows
    "Scan \<lparr>position = p, reader = ds\<rparr> =
       (\<lparr>Type = INT_T, Value = ds, Position = p\<lparr>Column := Column p + int (length ds)\<rparr>\<rparr>,
        \<lparr>position = p\<lparr>Column := Column p + int (length ds)\<rparr>, reader = []\<rparr>) \<and>
     (IsSpace c \<longrightarrow>
        Scan \<lparr>position = p, reader = ds @ c # cs\<rparr> =
          (\<lparr>Type = INT_T, Value = ds, Position = p\<lparr>Column := Column p + int (length ds)\<rparr>\<rparr>,
           \<lparr>position = p\<lparr>Column := Column p + int (length ds)\<rparr>, reader = c # cs\<rparr>)) \<and>
     (IsLetter c \<or> IsPunct c \<longrightarrow>
        Scan \<lparr>position = p, reader = ds @ c # cs\<rparr> =
          (\<lparr>Type = INVALID, Value = ds, Position = p\<lparr>Column := Column p + int (length ds)\<rparr>\<rparr>,
           \<lparr>position = p\<lparr>Column := Column p + int (length ds)\<rparr>, reader = c # cs\<rparr>)) \<and>
     testScanner ds =
       [\<lparr>Type = INT_T, Value = ds, Position = \<lparr>Line = 1, Column = int (length ds)\<rparr>\<rparr>,
        \<lparr>Type = EOF, Value = [], Position = \<lparr>Line = 0, Column = 0\<rparr>\<rparr>]"
proof -
  from assms obtain d ds' where ds: "ds = d # ds'" "IsDigit d" "list_all IsDigit ds'"
    by (cases ds) auto
  have nd: "IsSpace c \<or> IsLetter c \<or> IsPunct c \<Longrightarrow> \<not> IsDigit c"
    using digit_not_letter digit_not_punct space_not_digit by blast
  have tk: "takeWhile IsDigit ds' = ds'" "dropWhile IsDigit ds' = []"
    using ds(3) takeWhile_all [of IsDigit ds' "[]"] dropWhile_all [of IsDigit ds' "[]"] by simp_all
  have tk2: "\<not> IsDigit c \<Longrightarrow> takeWhile IsDigit (ds' @ c # cs) = ds'"
            "\<not> IsDigit c \<Longrightarrow> dropWhile IsDigit (ds' @ c # cs) = c # cs"
    using ds(3) by (simp_all add: takeWhile_all dropWhile_all)
  have 1: "Scan \<lparr>position = p, reader = ds\<rparr> =
       (\<lparr>Type = INT_T, Value = ds, Position = p\<lparr>Column := Column p + int (length ds)\<rparr>\<rparr>,
        \<lparr>position = p\<lparr>Column := Column p + int (length ds)\<rparr>, reader = []\<rparr>)" for p
    by (simp add: ds(1) Scan_digits [OF ds(2)] tk)
  have 2: "IsSpace c \<longrightarrow>
        Scan \<lparr>position = p, reader = ds @ c # cs\<rparr> =
          (\<lparr>Type = INT_T, Value = ds, Position = p\<lparr>Column := Column p + int (length ds)\<rparr>\<rparr>,
           \<lparr>position = p\<lparr>Column := Column p + int (length ds)\<rparr>, reader = c # cs\<rparr>)"
    using nd by (auto simp: ds(1) Scan_digits [OF ds(2)] tk2 space_not_letter space_not_punct)
  have 3: "IsLetter c \<or> IsPunct c \<longrightarrow>
        Scan \<lparr>position = p, reader = ds @ c # cs\<rparr> =
          (\<lparr>Type = INVALID, Value = ds, Position = p\<lparr>Column := Column p + int (length ds)\<rparr>\<rparr>,
           \<lparr>position = p\<lparr>Column := Column p + int (length ds)\<rparr>, reader = c # cs\<rparr>)"
    using nd by (auto simp: ds(1) Scan_digits [OF ds(2)] tk2)
  have 4: "testScanner ds =
       [\<lparr>Type = INT_T, Value = ds, Position = \<lparr>Line = 1, Column = int (length ds)\<rparr>\<rparr>,
        \<lparr>Type = EOF, Value = [], Position = \<lparr>Line = 0, Column = 0\<rparr>\<rparr>]"
    by (simp add: testScanner_def NewScanner_def scanAll.simps [of "\<lparr>position = p, reader = ds\<rparr>" for p]
          scanAll.simps [of "\<lparr>position = p, reader = []\<rparr>" for p] 1 Scan_Nil)
  from 1 2 3 4 show ?thesis by blast
qed

theorem Scan_integer_witness:
  "Scan (NewScanner ''1454 4848844032'') =
     (\<lparr>Type = INT_T, Value = ''1454'', Position = \<lparr>Line = 1, Column = 4\<rparr>\<rparr>,
      \<lparr>position = \<lparr>Line = 1, Column = 4\<rparr>, reader = '' 4848844032''\<rparr>) \<and>
   Scan (NewScanner ''123.'') =
     (\<lparr>Type = INVALID, Value = ''123'', Position = \<lparr>Line = 1, Column = 3\<rparr>\<rparr>,
      \<lparr>position = \<lparr>Line = 1, Column = 3\<rparr>, reader = ''.''\<rparr>) \<and>
   Scan \<lparr>position = \<lparr>Line = 1, Column = 3\<rparr>, reader = ''.''\<rparr> =
     (\<lparr>Type = INVALID, Value = ''.'', Position = \<lparr>Line = 1, Column = 4\<rparr>\<rparr>,
      \<lparr>position = \<lparr>Line = 1, Column = 4\<rparr>, reader = []\<rparr>) \<and>
   testScanner ''4848844032'' =
     [\<lparr>Type = INT_T, Value = ''4848844032'', Position = \<lparr>Line = 1, Column = 10\<rparr>\<rparr>,
      \<lparr>Type = EOF, Value = [], Position = \<lparr>Line = 0, Column = 0\<rparr>\<rparr>]"
  using Scan_integer [of "''1454''" "\<lparr>Line = 1, Column = 0\<rparr>" "CHR '' ''" "''4848844032''"]
        Scan_integer [of "''123''" "\<lparr>Line = 1, Column = 0\<rparr>" "CHR ''.''" "[]"]
        Scan_integer [of "''4848844032''" "\<lparr>Line = 1, Column = 0\<rparr>" "CHR '' ''" "[]"]
  by (simp add: scan_eval)

subsection \<open>Keyword tokens\<close>

lemma letter_plain:
  "IsLetter r \<Longrightarrow> r \<noteq> CHR 0x0A \<and> r \<noteq> CHR ''('' \<and> r \<noteq> CHR '')'' \<and> r \<noteq> CHR ''['' \<and>
     r \<noteq> CHR '']'' \<and> r \<noteq> CHR '','' \<and> r \<noteq> CHR 0x22 \<and> \<not> IsSpace r \<and> \<not> IsDigit r"
  by (auto simp: IsLetter_def IsDigit_def IsSpace_def Let_def)

lemma isValidKeywordIn_set: "isValidKeywordIn kws w = (w \<in> set kws)"
  by (induction kws) auto

lemma Scan_letters:
  assumes "IsLetter r"
  shows "Scan \<lparr>position = p, reader = r # rs\<rparr> =
     (\<lparr>Type = (if r # takeWhile IsLetter rs \<in> set validKeywords then KEYWORD else INVALID),
       Value = r # takeWhile IsLetter rs,
       Position = (if r # takeWhile IsLetter rs \<in> set validKeywords
                   then p\<lparr>Column := Column p + 1 + int (length (takeWhile IsLetter rs))\<rparr>
                   else \<lparr>Line = 0, Column = 0\<rparr>)\<rparr>,
      \<lparr>position = p\<lparr>Column := Column p + 1 + int (length (takeWhile IsLetter rs))\<rparr>,
       reader = dropWhile IsLetter rs\<rparr>)"
  using assms letter_plain [OF assms]
  by (simp add: Scan_Cons Let_def keyword_eq isValidKeyword_def isValidKeywordIn_set)

lemma keywords_letters: "w \<in> set validKeywords \<Longrightarrow> w \<noteq> [] \<and> list_all IsLetter w"
  by (auto simp: validKeywords_def IsLetter_def)

lemma scanAll_two:
  assumes "Scan scan = (t, scan')" and "Type t \<noteq> EOF" and "reader scan' = []"
  shows "scanAll scan = [t, \<lparr>Type = EOF, Value = [], Position = \<lparr>Line = 0, Column = 0\<rparr>\<rparr>]"
proof -
  have "Scan scan' = (\<lparr>Type = EOF, Value = [], Position = \<lparr>Line = 0, Column = 0\<rparr>\<rparr>, scan')"
    using assms(3) by (cases scan') (simp add: Scan_Nil)
  then have "scanAll scan' = [\<lparr>Type = EOF, Value = [], Position = \<lparr>Line = 0, Column = 0\<rparr>\<rparr>]"
    by (simp add: scanAll.simps [of scan'])
  with assms(1,2) show ?thesis
    by (simp add: scanAll.simps [of scan])
qed

text \<open>
  Claim C7.  A pass over a word of \<open>validKeywords\<close> gives exactly one \<open>KEYWORD\<close> token
  with the word as its value, then \<open>EOF\<close>; a pass over any other non-empty sequence of
  letters gives exactly one \<open>INVALID\<close> token with the sequence as its value, then
  \<open>EOF\<close>.  The comparison with the vocabulary is equality of strings, so it is
  case-sensitive.
\<close>

theorem Scan_keyword_closure:
  "(w \<in> set validKeywords \<longrightarrow>
      map (\<lambda>t. (Type t, Value t)) (testScanner w) = [(KEYWORD, w), (EOF, [])]) \<and>
   (w \<noteq> [] \<and> list_all IsLetter w \<and> w \<notin> set validKeywords \<longrightarrow>
      map (\<lambda>t. (Type t, Value t)) (testScanner w) = [(INVALID, w), (EOF, [])])"
proof -
  have word: "map (\<lambda>t. (Type t, Value t)) (testScanner w) =
      [(if w \<in> set validKeywords then KEYWORD else INVALID, w), (EOF, [])]"
    if "w \<noteq> []" and "list_all IsLetter w" for w
  proof -
    from that obtain r rs where w: "w = r # rs" "IsLetter r" "list_all IsLetter rs"
      by (cases w) auto
    have tk: "takeWhile IsLetter rs = rs" "dropWhile IsLetter rs = []"
      using w(3) takeWhile_all [of IsLetter rs "[]"] dropWhile_all [of IsLetter rs "[]"]
      by simp_all
    show ?thesis
      unfolding testScanner_def NewScanner_def w(1)
      by (subst scanAll_two [OF Scan_letters [OF w(2)]]) (simp_all add: tk)
  qed
  show ?thesis using word [of w] keywords_letters [of w] by auto
qed

theorem Scan_keyword_closure_witness:
  "map (\<lambda>t. (Type t, Value t)) (testScanner ''TimeIntervalValue'') =
     [(KEYWORD, ''TimeIntervalValue''), (EOF, [])] \<and>
   map (\<lambda>t. (Type t, Value t)) (testScanner ''InvalidKeyword'') =
     [(INVALID, ''InvalidKeyword''), (EOF, [])]"
  using Scan_keyword_closure [of "''TimeIntervalValue''"]
        Scan_keyword_closure [of "''InvalidKeyword''"]
  by (simp add: validKeywords_def IsLetter_def)

subsection \<open>The order of the positions\<close>

lemma pos_le_refl: "pos_le p p"
  by (simp add: pos_le_def)

lemma pos_le_trans: "pos_le a b \<Longrightarrow> pos_le b c \<Longrightarrow> pos_le a c"
  by (auto simp: pos_le_def)

lemma pos_le_column1: "pos_le p (p\<lparr>Column := Column p + 1 + int n\<rparr>)"
  by (simp add: pos_le_def)

lemma pos_le_column2: "pos_le p (p\<lparr>Column := Column p + 1\<rparr>)"
  by (simp add: pos_le_def)

lemma pos_le_newline: "pos_le p \<lparr>Line = Line p + 1, Column = 0\<rparr>"
  by (simp add: pos_le_def)

lemma Scan_position_aux:
  "Scan \<lparr>position = p, reader = xs\<rparr> = (t, scan') \<Longrightarrow>
     pos_le p (position scan') \<and> (carriesPosition t \<longrightarrow> Position t = position scan')"
proof (induction xs arbitrary: p)
  case Nil
  then show ?case by (auto simp: Scan_Nil pos_le_refl carriesPosition_def)
next
  case (Cons r rs)
  show ?case
  proof (cases "r = CHR 0x0A")
    case True
    with Cons.prems have "Scan \<lparr>position = \<lparr>Line = Line p + 1, Column = 0\<rparr>, reader = rs\<rparr> = (t, scan')"
      by (simp add: Scan_Cons)
    from Cons.IH [OF this] pos_le_newline [of p] show ?thesis
      by (blast intro: pos_le_trans)
  next
    case nl: False
    show ?thesis
    proof (cases "IsSpace r")
      case True
      then have plain: "r \<noteq> CHR ''(''" "r \<noteq> CHR '')''" "r \<noteq> CHR ''[''" "r \<noteq> CHR '']''"
          "r \<noteq> CHR '',''" "r \<noteq> CHR 0x22"
        by (auto simp: IsSpace_def)
      with True nl Cons.prems
      have "Scan \<lparr>position = p\<lparr>Column := Column p + 1\<rparr>, reader = rs\<rparr> = (t, scan')"
        by (simp add: Scan_Cons)
      from Cons.IH [OF this] pos_le_column2 [of p] show ?thesis
        by (blast intro: pos_le_trans)
    next
      case sp: False
      show ?thesis
      proof (cases "IsDigit r")
        case True
        with Cons.prems show ?thesis
          by (auto simp: Scan_digits pos_le_column1)
      next
        case dg: False
        show ?thesis
        proof (cases "IsLetter r")
          case True
          have "list_all IsLetter (takeWhile IsLetter rs)"
            by (induction rs) auto
          with True Cons.prems show ?thesis
            by (auto simp: Scan_letters pos_le_column1 carriesPosition_def unknownWord_def
                     split: if_splits)
        next
          case False
          with nl sp dg Cons.prems show ?thesis
            by (auto simp: Scan_Cons Let_def str_eq pos_le_column1 pos_le_column2 split: if_splits)
        qed
      qed
    qed
  qed
qed

lemma Scan_position:
  assumes "Scan scan = (t, scan')"
  shows "pos_le (position scan) (position scan')"
    and "carriesPosition t \<Longrightarrow> Position t = position scan'"
  using assms Scan_position_aux [of "position scan" "reader scan" t scan'] by (cases scan; simp)+

lemma scanAll_positions:
  "list_all (\<lambda>t. pos_le (position scan) (Position t)) (filter carriesPosition (scanAll scan)) \<and>
   sorted_wrt pos_le (map Position (filter carriesPosition (scanAll scan)))"
proof (induction scan rule: scanAll.induct)
  case (1 scan)
  obtain t scan' where sc: "Scan scan = (t, scan')" by (cases "Scan scan")
  show ?case
  proof (cases "Type t = EOF")
    case True
    with sc show ?thesis
      by (simp add: scanAll.simps [of scan] carriesPosition_def)
  next
    case False
    note ih = "1.IH" [OF sc [symmetric] False]
    have mono: "pos_le (position scan) (position scan')" by (rule Scan_position(1) [OF sc])
    have rest: "list_all (\<lambda>u. pos_le (position scan) (Position u))
                  (filter carriesPosition (scanAll scan'))"
      using ih mono by (auto simp: list_all_iff intro: pos_le_trans)
    show ?thesis
    proof (cases "carriesPosition t")
      case True
      then have pt: "Position t = position scan'" by (rule Scan_position(2) [OF sc])
      with sc False True ih mono rest show ?thesis
        by (simp add: scanAll.simps [of scan] list_all_iff)
    next
      case nc: False
      with sc False ih rest show ?thesis
        by (simp add: scanAll.simps [of scan])
    qed
  qed
qed

text \<open>
  Claim C8, amended.  In a pass over any input, the positions of the tokens that carry
  one (all tokens but \<open>EOF\<close> and the \<open>INVALID\<close> tokens of unknown words) are
  non-decreasing in the lexicographic order; and a newline read by \<open>Scan\<close> between tokens
  continues the scan on the next line at column 0.
\<close>

theorem token_positions_monotone:
  "sorted_wrt pos_le (map Position (filter carriesPosition (testScanner input))) \<and>
   Scan \<lparr>position = p, reader = CHR 0x0A # rest\<rparr> =
     Scan \<lparr>position = \<lparr>Line = Line p + 1, Column = 0\<rparr>, reader = rest\<rparr>"
  using scanAll_positions [of "NewScanner input"]
  by (simp add: testScanner_def Scan_Cons)

theorem token_positions_monotone_witness:
  "map Position (filter carriesPosition (testScanner ''( Let x 12\<newline>, ]'')) =
     [\<lparr>Line = 1, Column = 1\<rparr>, \<lparr>Line = 1, Column = 5\<rparr>, \<lparr>Line = 1, Column = 10\<rparr>,
      \<lparr>Line = 2, Column = 1\<rparr>, \<lparr>Line = 2, Column = 3\<rparr>] \<and>
   sorted_wrt pos_le (map Position (filter carriesPosition (testScanner ''( Let x 12\<newline>, ]'')))"
  using token_positions_monotone [of "''( Let x 12\<newline>, ]''"]
  by (simp add: pass_eval carriesPosition_def unknownWord_def)

text \<open>
  Claim C8 as stated fails: the \<open>EOF\<close> token is returned with the zero position, so on the
  input \<open>(\<close> the positions are (1, 1) and then (0, 0); and a newline inside a string
  neither resets the column nor increases the line: the string token of \<open>"a\<close>, newline,
  \<open>b"\<close> is at line 1, column 4.
\<close>

theorem token_positions_counterexample:
  "\<not> sorted_wrt pos_le (map Position (testScanner ''('')) \<and>
   testScanner ''('' =
     [\<lparr>Type = PARENS_L, Value = ''('', Position = \<lparr>Line = 1, Column = 1\<rparr>\<rparr>,
      \<lparr>Type = EOF, Value = [], Position = \<lparr>Line = 0, Column = 0\<rparr>\<rparr>] \<and>
   Scan (NewScanner ''\"a\<newline>b\"'') =
     (\<lparr>Type = STRING, Value = ''\"a\<newline>b'', Position = \<lparr>Line = 1, Column = 4\<rparr>\<rparr>,
      \<lparr>position = \<lparr>Line = 1, Column = 4\<rparr>, reader = ''\"''\<rparr>)"
  by (simp add: pass_eval pos_le_def)

subsection \<open>The position of a token\<close>

lemma advance_Cons: "advance p (r # rs) = advance (step p r) rs"
  by (simp add: advance_def)

lemma advance_plain:
  "CHR 0x0A \<notin> set rs \<Longrightarrow> advance p rs = p\<lparr>Column := Column p + int (length rs)\<rparr>"
  by (induction rs arbitrary: p) (auto simp: advance_def step_def)

lemma Scan_last_consumed_aux:
  "Scan \<lparr>position = p, reader = xs\<rparr> = (t, scan') \<Longrightarrow> carriesPosition t \<Longrightarrow>
   (Type t = STRING \<longrightarrow> CHR 0x0A \<notin> set (Value t)) \<Longrightarrow>
     \<exists>consumed. consumed \<noteq> [] \<and> xs = consumed @ reader scan' \<and>
       Position t = advance p consumed"
proof (induction xs arbitrary: p)
  case Nil
  then show ?case by (auto simp: Scan_Nil carriesPosition_def)
next
  case (Cons r rs)
  show ?case
  proof (cases "r = CHR 0x0A")
    case True
    with Cons.prems have "Scan \<lparr>position = \<lparr>Line = Line p + 1, Column = 0\<rparr>, reader = rs\<rparr> = (t, scan')"
      by (simp add: Scan_Cons)
    from Cons.IH [OF this Cons.prems(2,3)] obtain consumed where
      c: "consumed \<noteq> []" "rs = consumed @ reader scan'"
         "Position t = advance \<lparr>Line = Line p + 1, Column = 0\<rparr> consumed"
      by blast
    have "r # rs = (r # consumed) @ reader scan'" using c(2) by simp
    moreover have "Position t = advance p (r # consumed)"
      using c(3) True by (simp add: advance_Cons step_def)
    ultimately show ?thesis by blast
  next
    case nl: False
    show ?thesis
    proof (cases "IsSpace r")
      case True
      then have plain: "r \<noteq> CHR ''(''" "r \<noteq> CHR '')''" "r \<noteq> CHR ''[''" "r \<noteq> CHR '']''"
          "r \<noteq> CHR '',''" "r \<noteq> CHR 0x22"
        by (auto simp: IsSpace_def)
      with True nl Cons.prems
      have "Scan \<lparr>position = p\<lparr>Column := Column p + 1\<rparr>, reader = rs\<rparr> = (t, scan')"
        by (simp add: Scan_Cons)
      from Cons.IH [OF this Cons.prems(2,3)] obtain consumed where
        c: "consumed \<noteq> []" "rs = consumed @ reader scan'"
           "Position t = advance (p\<lparr>Column := Column p + 1\<rparr>) consumed"
        by blast
      have "r # rs = (r # consumed) @ reader scan'" using c(2) by simp
      moreover have "Position t = advance p (r # consumed)"
        using c(3) nl by (simp add: advance_Cons step_def)
      ultimately show ?thesis by blast
    next
      case sp: False
      show ?thesis
      proof (cases "IsDigit r")
        case True
        have "CHR 0x0A \<notin> set (r # takeWhile IsDigit rs)"
          using nl by (auto dest!: set_takeWhileD simp: IsDigit_def)
        from advance_plain [OF this, of p] True Cons.prems(1)
        have "r # rs = (r # takeWhile IsDigit rs) @ reader scan' \<and>
              Position t = advance p (r # takeWhile IsDigit rs)"
          by (auto simp: Scan_digits add.assoc)
        then show ?thesis by blast
      next
        case dg: False
        show ?thesis
        proof (cases "IsLetter r")
          case True
          have all: "list_all IsLetter (takeWhile IsLetter rs)"
            by (induction rs) auto
          have "CHR 0x0A \<notin> set (r # takeWhile IsLetter rs)"
            using nl by (auto dest!: set_takeWhileD simp: IsLetter_def)
          from advance_plain [OF this, of p] True all Cons.prems(1,2)
          have "r # rs = (r # takeWhile IsLetter rs) @ reader scan' \<and>
                Position t = advance p (r # takeWhile IsLetter rs)"
            by (auto simp: Scan_letters add.assoc carriesPosition_def unknownWord_def
                     split: if_splits)
          then show ?thesis by blast
        next
          case lt: False
          show ?thesis
          proof (cases "r = CHR 0x22")
            case True
            with Cons.prems(1) have
              t: "Value t = r # takeWhile (\<lambda>r. r \<noteq> CHR 0x22) rs" "Type t = STRING"
                 "Position t = p\<lparr>Column := Column p + 1 +
                    int (length (takeWhile (\<lambda>r. r \<noteq> CHR 0x22) rs))\<rparr>"
                 "reader scan' = dropWhile (\<lambda>r. r \<noteq> CHR 0x22) rs"
              by (auto simp: Scan_Cons Let_def str_eq)
            with Cons.prems(3) have "CHR 0x0A \<notin> set (r # takeWhile (\<lambda>r. r \<noteq> CHR 0x22) rs)"
              by simp
            from advance_plain [OF this, of p] t
            have "r # rs = (r # takeWhile (\<lambda>r. r \<noteq> CHR 0x22) rs) @ reader scan' \<and>
                  Position t = advance p (r # takeWhile (\<lambda>r. r \<noteq> CHR 0x22) rs)"
              by (simp add: add.assoc)
            then show ?thesis by blast
          next
            case False
            with nl sp dg lt Cons.prems(1)
            have "r # rs = [r] @ reader scan' \<and> Position t = advance p [r]"
              by (auto simp: Scan_Cons Let_def advance_def step_def split: if_splits)
            then show ?thesis by blast
          qed
        qed
      qed
    qed
  qed
qed

text \<open>
  Claim C9, amended.  A token that carries a position (every token but \<open>EOF\<close> and the
  \<open>INVALID\<close> token of an unknown word) carries the position of the last rune consumed
  by the call that returns it: the position reached from the scanner's position before
  the call by the runes the call consumed, one column for each rune and the next line at
  column 0 for each newline.  For a string token this holds when its value contains no
  newline (inside a string a newline only counts as a column).  The pass over
  \<open>( )\<close>, newline, \<open>[ ]\<close> gives the four positioned tokens of the claim and \<open>EOF\<close>.
\<close>

theorem token_position_last_consumed:
  "(Scan scan = (t, scan') \<and> carriesPosition t \<and>
      (Type t = STRING \<longrightarrow> CHR 0x0A \<notin> set (Value t)) \<longrightarrow>
      (\<exists>consumed. consumed \<noteq> [] \<and> reader scan = consumed @ reader scan' \<and>
         Position t = advance (position scan) consumed)) \<and>
   testScanner ''( )\<newline>[ ]'' =
     [\<lparr>Type = PARENS_L, Value = ''('', Position = \<lparr>Line = 1, Column = 1\<rparr>\<rparr>,
      \<lparr>Type = PARENS_R, Value = '')'', Position = \<lparr>Line = 1, Column = 3\<rparr>\<rparr>,
      \<lparr>Type = SQUARE_L, Value = ''['', Position = \<lparr>Line = 2, Column = 1\<rparr>\<rparr>,
      \<lparr>Type = SQUARE_R, Value = '']'', Position = \<lparr>Line = 2, Column = 3\<rparr>\<rparr>,
      \<lparr>Type = EOF, Value = [], Position = \<lparr>Line = 0, Column = 0\<rparr>\<rparr>]"
proof -
  have "\<exists>consumed. consumed \<noteq> [] \<and> reader scan = consumed @ reader scan' \<and>
         Position t = advance (position scan) consumed"
    if "Scan scan = (t, scan')" "carriesPosition t"
       "Type t = STRING \<longrightarrow> CHR 0x0A \<notin> set (Value t)"
    using that Scan_last_consumed_aux [of "position scan" "reader scan" t scan']
    by (cases scan) simp
  moreover have "testScanner ''( )\<newline>[ ]'' =
     [\<lparr>Type = PARENS_L, Value = ''('', Position = \<lparr>Line = 1, Column = 1\<rparr>\<rparr>,
      \<lparr>Type = PARENS_R, Value = '')'', Position = \<lparr>Line = 1, Column = 3\<rparr>\<rparr>,
      \<lparr>Type = SQUARE_L, Value = ''['', Position = \<lparr>Line = 2, Column = 1\<rparr>\<rparr>,
      \<lparr>Type = SQUARE_R, Value = '']'', Position = \<lparr>Line = 2, Column = 3\<rparr>\<rparr>,
      \<lparr>Type = EOF, Value = [], Position = \<lparr>Line = 0, Column = 0\<rparr>\<rparr>]"
    by (simp add: pass_eval)
  ultimately show ?thesis by blast
qed

theorem token_position_last_consumed_witness:
  "Scan (NewScanner ''  Close ('') =
     (\<lparr>Type = KEYWORD, Value = ''Close'', Position = \<lparr>Line = 1, Column = 7\<rparr>\<rparr>,
      \<lparr>position = \<lparr>Line = 1, Column = 7\<rparr>, reader = '' (''\<rparr>) \<and>
   (\<exists>consumed. consumed \<noteq> [] \<and> ''  Close ('' = consumed @ '' ('' \<and>
      \<lparr>Line = 1, Column = 7\<rparr> = advance \<lparr>Line = 1, Column = 0\<rparr> consumed) \<and>
   Scan \<lparr>position = \<lparr>Line = 1, Column = 7\<rparr>, reader = ''\<newline> \"ab''\<rparr> =
     (\<lparr>Type = STRING, Value = ''\"ab'', Position = \<lparr>Line = 2, Column = 4\<rparr>\<rparr>,
      \<lparr>position = \<lparr>Line = 2, Column = 4\<rparr>, reader = []\<rparr>) \<and>
   (\<exists>consumed. consumed \<noteq> [] \<and> ''\<newline> \"ab'' = consumed @ [] \<and>
      \<lparr>Line = 2, Column = 4\<rparr> = advance \<lparr>Line = 1, Column = 7\<rparr> consumed)"
proof -
  have sc: "Scan (NewScanner ''  Close ('') =
     (\<lparr>Type = KEYWORD, Value = ''Close'', Position = \<lparr>Line = 1, Column = 7\<rparr>\<rparr>,
      \<lparr>position = \<lparr>Line = 1, Column = 7\<rparr>, reader = '' (''\<rparr>)"
    by (simp add: scan_eval)
  have cp: "carriesPosition \<lparr>Type = KEYWORD, Value = ''Close'', Position = \<lparr>Line = 1, Column = 7\<rparr>\<rparr>"
    by (simp add: carriesPosition_def unknownWord_def)
  from token_position_last_consumed
         [of "NewScanner ''  Close (''"
             "\<lparr>Type = KEYWORD, Value = ''Close'', Position = \<lparr>Line = 1, Column = 7\<rparr>\<rparr>"
             "\<lparr>position = \<lparr>Line = 1, Column = 7\<rparr>, reader = '' (''\<rparr>"] sc cp
  have 1: "\<exists>consumed. consumed \<noteq> [] \<and> ''  Close ('' = consumed @ '' ('' \<and>
      \<lparr>Line = 1, Column = 7\<rparr> = advance \<lparr>Line = 1, Column = 0\<rparr> consumed"
    by (simp add: NewScanner_def)
  have st: "Scan \<lparr>position = \<lparr>Line = 1, Column = 7\<rparr>, reader = ''\<newline> \"ab''\<rparr> =
     (\<lparr>Type = STRING, Value = ''\"ab'', Position = \<lparr>Line = 2, Column = 4\<rparr>\<rparr>,
      \<lparr>position = \<lparr>Line = 2, Column = 4\<rparr>, reader = []\<rparr>)"
    by (simp add: scan_eval)
  have cs: "carriesPosition \<lparr>Type = STRING, Value = ''\"ab'', Position = \<lparr>Line = 2, Column = 4\<rparr>\<rparr>"
    by (simp add: carriesPosition_def unknownWord_def)
  from token_position_last_consumed
         [of "\<lparr>position = \<lparr>Line = 1, Column = 7\<rparr>, reader = ''\<newline> \"ab''\<rparr>"
             "\<lparr>Type = STRING, Value = ''\"ab'', Position = \<lparr>Line = 2, Column = 4\<rparr>\<rparr>"
             "\<lparr>position = \<lparr>Line = 2, Column = 4\<rparr>, reader = []\<rparr>"] st cs
  have 2: "\<exists>consumed. consumed \<noteq> [] \<and> ''\<newline> \"ab'' = consumed @ [] \<and>
      \<lparr>Line = 2, Column = 4\<rparr> = advance \<lparr>Line = 1, Column = 7\<rparr> consumed"
    by simp
  from sc 1 st 2 show ?thesis by blast
qed

text \<open>
  Claim C9 as stated fails: after a space the \<open>EOF\<close> token carries (0, 0) although the
  last rune consumed is at (1, 1); and the string token of \<open>"a\<close>, newline, \<open>b"\<close> carries
  (1, 4) although its last rune is at line 2, column 1.
\<close>

theorem token_position_counterexample:
  "Scan (NewScanner '' '') =
     (\<lparr>Type = EOF, Value = [], Position = \<lparr>Line = 0, Column = 0\<rparr>\<rparr>,
      \<lparr>position = \<lparr>Line = 1, Column = 1\<rparr>, reader = []\<rparr>) \<and>
   advance \<lparr>Line = 1, Column = 0\<rparr> '' '' = \<lparr>Line = 1, Column = 1\<rparr> \<and>
   Scan (NewScanner ''\"a\<newline>b\"'') =
     (\<lparr>Type = STRING, Value = ''\"a\<newline>b'', Position = \<lparr>Line = 1, Column = 4\<rparr>\<rparr>,
      \<lparr>position = \<lparr>Line = 1, Column = 4\<rparr>, reader = ''\"''\<rparr>) \<and>
   advance \<lparr>Line = 1, Column = 0\<rparr> ''\"a\<newline>b'' = \<lparr>Line = 2, Column = 1\<rparr>"
  by (simp add: scan_eval advance_def step_def)

subsection \<open>The end of a pass\<close>

lemma scanAll_shape:
  "scanAll scan \<noteq> [] \<and> Type (last (scanAll scan)) = EOF \<and>
   list_all (\<lambda>t. Type t \<noteq> EOF) (butlast (scanAll scan))"
proof (induction scan rule: scanAll.induct)
  case (1 scan)
  obtain t scan' where sc: "Scan scan = (t, scan')" by (cases "Scan scan")
  show ?case
  proof (cases "Type t = EOF")
    case True
    with sc show ?thesis by (simp add: scanAll.simps [of scan])
  next
    case False
    with sc "1.IH" [OF sc [symmetric] False] show ?thesis
      by (simp add: scanAll.simps [of scan])
  qed
qed

text \<open>
  Once the input is exhausted \<open>Scan\<close> returns \<open>EOF\<close> and leaves the scanner as it is, so
  every later call returns \<open>EOF\<close> again; a pass returns \<open>EOF\<close> last and only there.
\<close>

theorem scan_pass_ends_with_EOF:
  "Scan \<lparr>position = p, reader = []\<rparr> =
     (\<lparr>Type = EOF, Value = [], Position = \<lparr>Line = 0, Column = 0\<rparr>\<rparr>, \<lparr>position = p, reader = []\<rparr>) \<and>
   testScanner input \<noteq> [] \<and> Type (last (testScanner input)) = EOF \<and>
   list_all (\<lambda>t. Type t \<noteq> EOF) (butlast (testScanner input))"
  using scanAll_shape [of "NewScanner input"] by (simp add: testScanner_def Scan_Nil)

section \<open>Theorems about the encoding\<close>

subsection \<open>Numerals\<close>

lemma digitsValue_append:
  "digitsValue acc (xs @ [c]) =
     (case digitsValue acc xs of
        None \<Rightarrow> None
      | Some v \<Rightarrow> if decimalDigit c then Some (v * 10 + (of_char c - 48)) else None)"
  by (induction xs arbitrary: acc) auto

lemma digit_char:
  assumes "n < 10"
  shows "decimalDigit (digitChar n) \<and> (of_char (digitChar n) :: nat) = 48 + n \<and>
         digitChar n \<noteq> CHR ''-'' \<and> digitChar n \<noteq> CHR ''+''"
proof -
  from assms have "n = 0 \<or> n = 1 \<or> n = 2 \<or> n = 3 \<or> n = 4 \<or> n = 5 \<or> n = 6 \<or> n = 7 \<or>
      n = 8 \<or> n = 9"
    by arith
  then show ?thesis
    by (auto simp: digitChar_def decimalDigit_def)
qed

lemma digitsValue_digits: "digitsValue 0 (digits n) = Some n"
proof (induction n rule: digits.induct)
  case (1 n)
  show ?case
  proof (cases "n < 10")
    case True
    then show ?thesis by (simp add: digits.simps [of n] digit_char)
  next
    case False
    have "n mod 10 < 10" by simp
    from digit_char [OF this] False "1.IH" show ?thesis
      by (simp add: digits.simps [of n] digitsValue_append)
  qed
qed

lemma digits_decimal: "list_all decimalDigit (digits n)"
proof (induction n rule: digits.induct)
  case (1 n)
  show ?case
  proof (cases "n < 10")
    case True
    then show ?thesis by (simp add: digits.simps [of n] digit_char)
  next
    case False
    have "n mod 10 < 10" by simp
    from digit_char [OF this] False "1.IH" show ?thesis
      by (simp add: digits.simps [of n])
  qed
qed

lemma digits_first:
  "digits n \<noteq> [] \<and> hd (digits n) \<noteq> CHR ''-'' \<and> hd (digits n) \<noteq> CHR ''+''"
proof (induction n rule: digits.induct)
  case (1 n)
  show ?case
  proof (cases "n < 10")
    case True
    with digit_char [OF True] show ?thesis by (simp add: digits.simps [of n])
  next
    case False
    with "1.IH" show ?thesis
      by (simp add: digits.simps [of n] hd_append)
  qed
qed

lemma SetString_Integer_String: "SetString (Integer_String x) = Some x"
proof (cases "x < 0")
  case True
  then show ?thesis
    using digits_first [of "nat (- x)"]
    by (simp add: SetString_def Integer_String_def digitsValue_digits)
next
  case False
  obtain c cs where d: "digits (nat x) = c # cs" "c \<noteq> CHR ''-''" "c \<noteq> CHR ''+''"
    using digits_first [of "nat x"] by (cases "digits (nat x)") auto
  have "digitsValue 0 (c # cs) = Some (nat x)"
    using digitsValue_digits [of "nat x"] d(1) by simp
  with False d show ?thesis
    by (simp add: SetString_def Integer_String_def)
qed

lemmas encode_eval = Close_def Ada_def digits.simps digitChar_def Integer_String_def

lemmas decode_eval = mapE_def apE_def shapeError_def contractTags_def actionTags_def
  valueTags_def observationTags_def decode_string_def decode_integer_def decode_uint64_def
  decode_int64_def SetString_def decimalDigit_def

subsection \<open>Decoding what was encoded\<close>

text \<open>
  A contract of tagged structs is decoded back from its document: the encoder writes
  each of these structs under the keys that the decoder reads.
\<close>

lemma decode_Party_encode: "decode_Party (encode_Party p) = Inr p"
  by (cases p) (simp_all add: mapE_def decode_string_def)

lemma decode_Token_encode: "decode_Token (encode_Token t) = Inr t"
  by (cases t) (simp add: mapE_def apE_def decode_string_def)

lemma decode_Payee_encode: "decode_Payee (encode_Payee p) = Inr p"
  by (cases p) (simp add: mapE_def decode_Party_encode)

lemma decode_ChoiceId_encode: "decode_ChoiceId (encode_ChoiceId c) = Inr c"
  by (cases c) (simp add: mapE_def apE_def decode_string_def decode_Party_encode)

lemma decode_integer_encode: "decode_integer (JNumber (Integer_String i)) = Inr i"
  by (simp add: decode_integer_def SetString_Integer_String)

lemma decode_Value_encode: "tagged_Value v \<Longrightarrow> decode_Value (encode_Value v) = Inr v"
  and decode_Observation_encode:
    "tagged_Observation obs \<Longrightarrow> decode_Observation (encode_Observation obs) = Inr obs"
  by (induction v and obs)
     (auto simp: mapE_def apE_def decode_string_def decode_integer_encode decode_Token_encode
                 decode_Party_encode decode_ChoiceId_encode)

lemma decode_Contract_encode:
  "tagged_Contract c \<Longrightarrow> decode_Contract (encode_Contract c) = Inr c"
  by (induction c rule: tagged_Contract.induct)
     (auto simp: mapE_def apE_def decode_string_def decode_Value_encode decode_Observation_encode
                 decode_Party_encode decode_Payee_encode decode_Token_encode)

text \<open>
  Claim C1 (decoding the document of a node gives the node back).  The contract
  \<open>When{[]Case{}, 1666078977926, Close}\<close> of \<open>TestTypes_WhenContract\<close> is written under the
  names of its fields, \<open>Cases\<close>, \<open>Timeout\<close> and \<open>Continue\<close>, not under the keys \<open>when\<close>,
  \<open>timeout\<close> and \<open>timeout_continuation\<close> of the canonical document; the decoder of the
  canonical documents rejects what the encoder wrote.  A contract whose structs all
  carry their tags, such as the \<open>Let\<close> of \<open>TestTypes_LetContract\<close>, is decoded back.
\<close>

theorem roundtrip_fails_on_When:
  "encode_Contract (When [] 1666078977926 Close) =
     JObject [(''Cases'', JArray []), (''Timeout'', JNumber ''1666078977926''),
              (''Continue'', JString ''close'')] \<and>
   decode_Contract (encode_Contract (When [] 1666078977926 Close)) = Inl UnknownTag \<and>
   decode_Contract (JObject [(''when'', JArray []), (''timeout'', JNumber ''1666078977926''),
                             (''timeout_continuation'', JString ''close'')]) =
     Inr (When [] 1666078977926 Close) \<and>
   decode_Contract (encode_Contract (LetContract ''Number'' (Constant 1) Close)) =
     Inr (LetContract ''Number'' (Constant 1) Close)"
  by (simp add: encode_eval decode_eval)

subsection \<open>The document of a \<open>When\<close> contract\<close>

text \<open>
  Claim C2 (the document of the \<open>When\<close> contract of the claim).  \<open>When\<close> and \<open>Case\<close> declare
  no \<open>json\<close> tags: the contract is written under \<open>Cases\<close>, \<open>Timeout\<close> and \<open>Continue\<close>, its
  case under \<open>Case\<close>, \<open>Action\<close> and \<open>Contract\<close>, instead of \<open>when\<close>, \<open>timeout\<close>,
  \<open>timeout_continuation\<close>, \<open>case\<close> and \<open>then\<close>.  The choice inside is written as the claim
  says, the bound with \<open>from\<close> for the upper and \<open>to\<close> for the lower bound.
\<close>

theorem When_written_under_field_names:
  "encode_Contract
     (When [Case None (Choice (ChoiceId ''option'' (Role ''creditor'')) [Bound 3 2]) Close]
        1666078977926 Close) =
   JObject
     [(''Cases'',
       JArray
         [JObject
            [(''Case'', JNull),
             (''Action'',
              JObject
                [(''for_choice'',
                  JObject [(''choice_name'', JString ''option''),
                           (''choice_owner'', JObject [(''role_token'', JString ''creditor'')])]),
                 (''choose_between'',
                  JArray [JObject [(''from'', JNumber ''3''), (''to'', JNumber ''2'')]])]),
             (''Contract'', JString ''close'')]]),
      (''Timeout'', JNumber ''1666078977926''),
      (''Continue'', JString ''close'')]"
  by (simp add: encode_eval)

text \<open>
  On its own, a bound is written with its upper bound under \<open>from\<close> and its lower bound
  under \<open>to\<close>.
\<close>

theorem Bound_from_upper_to_lower:
  "encode_Bound (Bound upper lower) =
     JObject [(''from'', JNumber (digits (unat upper))), (''to'', JNumber (digits (unat lower)))] \<and>
   encode_Bound (Bound 3 2) = JObject [(''from'', JNumber ''3''), (''to'', JNumber ''2'')]"
  by (simp add: encode_eval)

subsection \<open>Constants\<close>

text \<open>
  Claim C5.  A \<open>Constant\<close> is written as a bare number whose numeral is the base-10
  numeral of its integer: decimal digits, after a minus sign for a negative integer.
  The numeral denotes the integer itself, whatever its size: \<open>SetConstant\<close> reads it back
  as the same constant, and 18446744073709551616, one more than the largest \<open>uint64\<close>,
  is written in full.  The contract \<open>Let{"Number", Constant(1), Close}\<close> is written
  as the document of the claim.
\<close>

theorem Constant_bare_numeral:
  "encode_Value (Constant n) =
     JNumber ((if n < 0 then ''-'' else []) @ digits (nat \<bar>n\<bar>)) \<and>
   list_all decimalDigit (digits (nat \<bar>n\<bar>)) \<and>
   SetConstant ((if n < 0 then ''-'' else []) @ digits (nat \<bar>n\<bar>)) = Some (Constant n) \<and>
   encode_Value (Constant 18446744073709551616) = JNumber ''18446744073709551616'' \<and>
   encode_Contract (LetContract ''Number'' (Constant 1) Close) =
     JObject [(''let'', JString ''Number''), (''be'', JNumber ''1''), (''then'', JString ''close'')]"
proof -
  have s: "(if n < 0 then ''-'' else []) @ digits (nat \<bar>n\<bar>) = Integer_String n"
    by (simp add: Integer_String_def)
  have "encode_Value (Constant 18446744073709551616) = JNumber ''18446744073709551616''"
    by (simp add: encode_eval)
  moreover have "encode_Contract (LetContract ''Number'' (Constant 1) Close) =
     JObject [(''let'', JString ''Number''), (''be'', JNumber ''1''), (''then'', JString ''close'')]"
    by (simp add: encode_eval)
  ultimately show ?thesis
    unfolding s by (simp add: SetConstant_def SetString_Integer_String digits_decimal)
qed

subsection \<open>The payee of a \<open>Pay\<close> contract\<close>

text \<open>
  Claim C10.  The \<open>to\<close> member of the document of every \<open>Pay\<close> contract is an object
  with the single key \<open>Party\<close>, capitalised as the field of \<open>Payee\<close> is, and the encoding
  of the payee's party as its value, never the key \<open>party\<close>; for the role \<open>creditor\<close>
  it is \<open>{"Party":{"role_token":"creditor"}}\<close>, as in the contract of
  \<open>TestTypes_PayContract\<close>.
\<close>

theorem Pay_to_Party:
  "encode_Contract (Pay accountId (Payee party) token v continue) =
     JObject [(''from_account'', encode_Party accountId),
              (''to'', JObject [(''Party'', encode_Party party)]),
              (''token'', encode_Token token), (''pay'', encode_Value v),
              (''then'', encode_Contract continue)] \<and>
   encode_Payee (Payee party) \<noteq> JObject [(''party'', d)] \<and>
   encode_Contract (Pay (Role ''debtor'') (Payee (Role ''creditor'')) Ada (Constant 5000000) Close) =
     JObject [(''from_account'', JObject [(''role_token'', JString ''debtor'')]),
              (''to'', JObject [(''Party'', JObject [(''role_token'', JString ''creditor'')])]),
              (''token'', JObject [(''currency_symbol'', JString []), (''token_name'', JString [])]),
              (''pay'', JNumber ''5000000''), (''then'', JString ''close'')]"
  by (simp add: encode_eval)

end
